theory Spec2Isabelle
  imports Complex_Main "HOL-Library.AList"
begin

section \<open>Data model (src/types/database.ts, db_schema.md)\<close>

text \<open>
  Identifiers are the uuid strings of the schema. Amounts are the \<open>numeric\<close> columns of
  the schema: exact decimals, modelled as rationals, so that in the store \<open>0.12\<close> is
  \<open>12 / 100\<close> and the arithmetic of the triggers is exact. Timestamps are points on a
  linear time axis.
\<close>

type_synonym uuid = string
type_synonym numeric = rat
type_synonym timestamp = nat

text \<open>
  Text that a user types is a JavaScript string: a sequence of UTF-16 code units (numbers
  below 65536). The form fields and the columns they are written to have this type.
  \<open>utf16\<close> gives the code units of an ASCII literal.
\<close>

type_synonym code_unit = nat
type_synonym ustring = "code_unit list"

definition utf16 :: "string \<Rightarrow> ustring" where
  "utf16 s = map of_char s"

text \<open>
  On the client an amount is a JavaScript number, an IEEE 754 double, and \<open>+\<close>, \<open>-\<close> and
  \<open>*\<close> round. The model keeps a rational for a number: the decimal that the store or the
  form delivered, which stands for the double nearest to it, or the value of the double
  that an operation returned. It does not fix the client's arithmetic: the operations
  are parameters of the functions that compute on the client, and a theorem assumes of
  them only what it states. \<open>js_plus a b\<close> is the sum \<open>a + b\<close>, \<open>js_minus a b\<close> the
  difference \<open>a - b\<close> and \<open>times_point12 x\<close> the product \<open>x * 0.12\<close>, each as the client
  computes it. Results outside the finite doubles (infinities, NaN) are not modelled.
\<close>

record js_arith =
  js_plus :: "numeric \<Rightarrow> numeric \<Rightarrow> numeric"
  js_minus :: "numeric \<Rightarrow> numeric \<Rightarrow> numeric"
  times_point12 :: "numeric \<Rightarrow> numeric"

datatype TripStatus = Pending | Confirmed | InProgress | Completed

record Customer =
  c_id :: uuid
  c_full_name :: ustring
  c_phone_number :: ustring
  c_business_type :: "ustring option"
  c_created_at :: timestamp
  c_updated_at :: timestamp

record Driver =
  d_id :: uuid
  d_full_name :: string
  d_phone_number :: string
  vehicle_type :: string
  registration_number :: string
  sacco_affiliation :: "string option"
  reliability_score :: int

record Trip =
  t_id :: uuid
  customer_id :: uuid
  driver_id :: "uuid option"
  load_description :: ustring
  pickup_location :: ustring
  dropoff_location :: ustring
  pickup_time :: timestamp
  agreed_fare :: "numeric option"
  platform_commission :: "numeric option"
  status :: TripStatus
  customer_verified_amount :: "numeric option"
  driver_verified_amount :: "numeric option"
  commission_paid :: bool
  commission_settled :: bool
  created_at :: timestamp
  updated_at :: timestamp

text \<open>A \<open>jsonb\<close> object built by \<open>jsonb_build_object\<close>: keys with their values.\<close>

datatype json = JNumber numeric | JString string

type_synonym jsonb = "(string \<times> json) list"

text \<open>
  A row of \<open>audit_logs\<close>. The columns \<open>id\<close> and \<open>created_at\<close> are filled by their
  defaults (\<open>gen_random_uuid()\<close>, \<open>now()\<close>) and are left out.
\<close>

record AuditLog =
  table_name :: string
  record_id :: uuid
  action :: string
  old_data :: "jsonb option"
  new_data :: "jsonb option"
  message :: "string option"

record Database =
  customers :: "Customer list"
  drivers :: "Driver list"
  trips :: "Trip list"
  audit_logs :: "AuditLog list"

section \<open>Database triggers (db_schema.md)\<close>

text \<open>\<open>calculate_trip_commission\<close>: the BEFORE INSERT OR UPDATE OF agreed_fare trigger.\<close>

definition calculate_trip_commission :: "Trip \<Rightarrow> Trip" where
  "calculate_trip_commission NEW =
     (case agreed_fare NEW of
        Some fare \<Rightarrow> NEW\<lparr>platform_commission := Some (fare * (12 / 100))\<rparr>
      | None \<Rightarrow> NEW\<lparr>platform_commission := None\<rparr>)"

text \<open>
  \<open>verify_trip_amounts\<close>: the AFTER UPDATE OF customer_verified_amount,
  driver_verified_amount trigger. It returns the rows it inserts into \<open>audit_logs\<close>;
  it returns \<open>NEW\<close> unchanged, so the stored row is not its result.
\<close>

definition verify_trip_amounts :: "Trip \<Rightarrow> Trip \<Rightarrow> AuditLog list" where
  "verify_trip_amounts OLD NEW =
     (case (customer_verified_amount NEW, driver_verified_amount NEW) of
        (Some ca, Some da) \<Rightarrow>
          if customer_verified_amount NEW \<noteq> customer_verified_amount OLD
             \<or> driver_verified_amount NEW \<noteq> driver_verified_amount OLD
          then
            (if ca \<noteq> da then
               [\<lparr>table_name = ''trips'', record_id = t_id NEW,
                 action = ''VERIFICATION_MISMATCH'', old_data = None,
                 new_data = Some [(''customer_amount'', JNumber ca),
                                  (''driver_amount'', JNumber da)],
                 message = Some ''Discrepancy detected! Customer and driver reported different amounts.''\<rparr>]
             else
               [\<lparr>table_name = ''trips'', record_id = t_id NEW,
                 action = ''VERIFICATION_MATCH'', old_data = None, new_data = None,
                 message = Some ''Amounts verified successfully by both parties.''\<rparr>])
          else []
      | _ \<Rightarrow> [])"

fun status_text :: "TripStatus \<Rightarrow> string" where
  "status_text Pending = ''Pending''"
| "status_text Confirmed = ''Confirmed''"
| "status_text InProgress = ''In Progress''"
| "status_text Completed = ''Completed''"

text \<open>\<open>log_trip_status_change\<close>: the AFTER UPDATE OF status trigger.\<close>

definition log_trip_status_change :: "Trip \<Rightarrow> Trip \<Rightarrow> AuditLog list" where
  "log_trip_status_change OLD NEW =
     (if status NEW \<noteq> status OLD then
        [\<lparr>table_name = ''trips'', record_id = t_id NEW, action = ''STATUS_UPDATE'',
          old_data = Some [(''status'', JString (status_text (status OLD)))],
          new_data = Some [(''status'', JString (status_text (status NEW)))],
          message = Some (''Trip status changed from '' @ status_text (status OLD)
                          @ '' to '' @ status_text (status NEW))\<rparr>]
      else [])"

section \<open>The store: INSERT and UPDATE on \<open>trips\<close> with their triggers\<close>

text \<open>
  The SET list of an UPDATE: for each column, \<open>None\<close> when the column is not named,
  \<open>Some v\<close> when it is set to \<open>v\<close>. An \<open>UPDATE OF column\<close> trigger fires for a row when
  the column is named in the SET list, whether or not the value changes. The columns
  that no trigger reads and no handler writes (the texts, the times) have no entry.
\<close>

record TripPatch =
  set_driver_id :: "uuid option option"
  set_agreed_fare :: "numeric option option"
  set_platform_commission :: "numeric option option"
  set_status :: "TripStatus option"
  set_customer_verified_amount :: "numeric option option"
  set_driver_verified_amount :: "numeric option option"
  set_commission_paid :: "bool option"
  set_commission_settled :: "bool option"

definition no_patch :: TripPatch where
  "no_patch = \<lparr>set_driver_id = None, set_agreed_fare = None, set_platform_commission = None,
     set_status = None, set_customer_verified_amount = None,
     set_driver_verified_amount = None, set_commission_paid = None,
     set_commission_settled = None\<rparr>"

definition assign_columns :: "TripPatch \<Rightarrow> Trip \<Rightarrow> Trip" where
  "assign_columns p OLD = OLD\<lparr>
     driver_id := (case set_driver_id p of None \<Rightarrow> driver_id OLD | Some v \<Rightarrow> v),
     agreed_fare := (case set_agreed_fare p of None \<Rightarrow> agreed_fare OLD | Some v \<Rightarrow> v),
     platform_commission :=
       (case set_platform_commission p of None \<Rightarrow> platform_commission OLD | Some v \<Rightarrow> v),
     status := (case set_status p of None \<Rightarrow> status OLD | Some v \<Rightarrow> v),
     customer_verified_amount :=
       (case set_customer_verified_amount p of
          None \<Rightarrow> customer_verified_amount OLD | Some v \<Rightarrow> v),
     driver_verified_amount :=
       (case set_driver_verified_amount p of
          None \<Rightarrow> driver_verified_amount OLD | Some v \<Rightarrow> v),
     commission_paid :=
       (case set_commission_paid p of None \<Rightarrow> commission_paid OLD | Some v \<Rightarrow> v),
     commission_settled :=
       (case set_commission_settled p of None \<Rightarrow> commission_settled OLD | Some v \<Rightarrow> v)\<rparr>"

text \<open>The row that is written: the SET list applied, then the BEFORE trigger.\<close>

definition row_written :: "TripPatch \<Rightarrow> Trip \<Rightarrow> Trip" where
  "row_written p OLD =
     (if set_agreed_fare p \<noteq> None then calculate_trip_commission (assign_columns p OLD)
      else assign_columns p OLD)"

text \<open>
  The AFTER triggers of one row, in the order of their names
  (\<open>check_verification_amounts\<close>, \<open>track_trip_status\<close>).
\<close>

definition after_update :: "TripPatch \<Rightarrow> Trip \<Rightarrow> Trip \<Rightarrow> AuditLog list" where
  "after_update p OLD NEW =
     (if set_customer_verified_amount p \<noteq> None \<or> set_driver_verified_amount p \<noteq> None
      then verify_trip_amounts OLD NEW else [])
     @ (if set_status p \<noteq> None then log_trip_status_change OLD NEW else [])"

definition update_row :: "TripPatch \<Rightarrow> Trip \<Rightarrow> Trip \<times> AuditLog list" where
  "update_row p OLD = (let NEW = row_written p OLD in (NEW, after_update p OLD NEW))"

text \<open>\<open>UPDATE trips SET p WHERE sel\<close>: one statement, applied to every selected row.\<close>

definition update_trips :: "TripPatch \<Rightarrow> (Trip \<Rightarrow> bool) \<Rightarrow> Database \<Rightarrow> Database" where
  "update_trips p sel db = db\<lparr>
     trips := map (\<lambda>t. if sel t then fst (update_row p t) else t) (trips db),
     audit_logs := audit_logs db
        @ concat (map (\<lambda>t. snd (update_row p t)) (filter sel (trips db)))\<rparr>"

text \<open>\<open>INSERT INTO trips\<close>: the BEFORE INSERT trigger runs on the candidate row.\<close>

definition insert_trip :: "Trip \<Rightarrow> Database \<Rightarrow> Database" where
  "insert_trip row db = db\<lparr>trips := trips db @ [calculate_trip_commission row]\<rparr>"

text \<open>The audit events of the verification safeguard.\<close>

definition is_verification_event :: "AuditLog \<Rightarrow> bool" where
  "is_verification_event e =
     (action e = ''VERIFICATION_MISMATCH'' \<or> action e = ''VERIFICATION_MATCH'')"

text \<open>The contract of the specification's commission engine.\<close>

definition deriveCommission :: "numeric option \<Rightarrow> numeric option" where
  "deriveCommission agreedFare =
     (case agreedFare of None \<Rightarrow> None | Some f \<Rightarrow> Some (f * (12 / 100)))"

definition commission_derived :: "Trip \<Rightarrow> bool" where
  "commission_derived t = (platform_commission t = deriveCommission (agreed_fare t))"

section \<open>Reconciliation page (groupByDriver, fetchData, handleSettle)\<close>

text \<open>The joined \<open>driver:drivers(id, full_name, phone_number)\<close> of a fetched trip.\<close>

record DriverRef =
  dr_id :: uuid
  dr_full_name :: string
  dr_phone_number :: string

text \<open>
  \<open>UnsettledTrip\<close>: a row of \<open>trips\<close> selected with \<open>*\<close>, with its joined driver.
  The interface declares \<open>driver_id: string\<close>; the column is nullable and the code
  tests it, so it stays an option here.
\<close>

record UnsettledTrip = Trip +
  driver :: "DriverRef option"

record DriverStatement =
  s_driver :: DriverRef
  s_trips :: "UnsettledTrip list"
  totalFare :: numeric
  totalCommission :: numeric

text \<open>
  The guard \<open>if (!trip.driver_id || !trip.driver) continue\<close>: \<open>null\<close> and the empty
  string are falsy. \<open>trip_key\<close> is \<open>None\<close> when the trip is skipped, and otherwise the
  map key and the driver of the trip.
\<close>

definition trip_key :: "UnsettledTrip \<Rightarrow> (uuid \<times> DriverRef) option" where
  "trip_key trip =
     (case driver_id trip of
        None \<Rightarrow> None
      | Some driverId \<Rightarrow>
          if driverId = [] then None
          else (case driver trip of None \<Rightarrow> None | Some drv \<Rightarrow> Some (driverId, drv)))"

definition new_statement :: "DriverRef \<Rightarrow> DriverStatement" where
  "new_statement drv = \<lparr>s_driver = drv, s_trips = [], totalFare = 0, totalCommission = 0\<rparr>"

text \<open>\<open>trip.agreed_fare ?? 0\<close> and \<open>trip.platform_commission ?? (trip.agreed_fare ?? 0) * 0.12\<close>.\<close>

definition fare_or_zero :: "'a Trip_scheme \<Rightarrow> numeric" where
  "fare_or_zero trip = (case agreed_fare trip of Some f \<Rightarrow> f | None \<Rightarrow> 0)"

definition commission_or_fallback :: "js_arith \<Rightarrow> 'a Trip_scheme \<Rightarrow> numeric" where
  "commission_or_fallback ar trip =
     (case platform_commission trip of
        Some c \<Rightarrow> c
      | None \<Rightarrow> times_point12 ar (fare_or_zero trip))"

text \<open>
  \<open>statement.trips.push(trip)\<close>, \<open>statement.totalFare += ...\<close> and
  \<open>statement.totalCommission += ...\<close>, with the client's addition.
\<close>

definition add_trip :: "js_arith \<Rightarrow> UnsettledTrip \<Rightarrow> DriverStatement \<Rightarrow> DriverStatement" where
  "add_trip ar trip statement = statement\<lparr>
     s_trips := s_trips statement @ [trip],
     totalFare := js_plus ar (totalFare statement) (fare_or_zero trip),
     totalCommission := js_plus ar (totalCommission statement) (commission_or_fallback ar trip)\<rparr>"

text \<open>
  The loop over the trips. The JavaScript \<open>Map\<close> is the list of its entries in
  insertion order: \<open>map_of\<close> is \<open>get\<close>, and \<open>AList.update\<close> is \<open>set\<close> (a new key goes
  to the end, an existing key keeps its place).
\<close>

fun groupByDriver_loop ::
  "js_arith \<Rightarrow> UnsettledTrip list \<Rightarrow> (uuid \<times> DriverStatement) list
     \<Rightarrow> (uuid \<times> DriverStatement) list" where
  "groupByDriver_loop ar [] m = m"
| "groupByDriver_loop ar (trip # rest) m =
     (case trip_key trip of
        None \<Rightarrow> groupByDriver_loop ar rest m
      | Some (driverId, drv) \<Rightarrow>
          (let m1 = (if map_of m driverId = None
                     then AList.update driverId (new_statement drv) m else m)
           in case map_of m1 driverId of
                None \<Rightarrow> groupByDriver_loop ar rest m1
              | Some statement \<Rightarrow>
                  groupByDriver_loop ar rest
                    (AList.update driverId (add_trip ar trip statement) m1)))"

text \<open>
  \<open>Array.prototype.sort\<close> with a comparator: \<open>a\<close> comes before \<open>b\<close> when the comparator
  is negative, after \<open>b\<close> when it is positive, and elements that compare as equal keep
  their order (the sort is stable). For a comparator that orders the elements
  consistently this fixes the result, which is the one computed here by insertion; for
  any other comparator the language leaves the order to the implementation.
\<close>

fun insert_sorted :: "('a \<Rightarrow> 'a \<Rightarrow> numeric) \<Rightarrow> 'a \<Rightarrow> 'a list \<Rightarrow> 'a list" where
  "insert_sorted cmp x [] = [x]"
| "insert_sorted cmp x (y # ys) =
     (if cmp x y \<le> 0 then x # y # ys else y # insert_sorted cmp x ys)"

definition array_sort :: "('a \<Rightarrow> 'a \<Rightarrow> numeric) \<Rightarrow> 'a list \<Rightarrow> 'a list" where
  "array_sort cmp xs = foldr (insert_sorted cmp) xs []"

text \<open>The comparator \<open>(a, b) => b.totalCommission - a.totalCommission\<close>.\<close>

definition by_commission :: "js_arith \<Rightarrow> DriverStatement \<Rightarrow> DriverStatement \<Rightarrow> numeric" where
  "by_commission ar a b = js_minus ar (totalCommission b) (totalCommission a)"

text \<open>\<open>Array.from(map.values()).sort(...)\<close>.\<close>

definition groupByDriver :: "js_arith \<Rightarrow> UnsettledTrip list \<Rightarrow> DriverStatement list" where
  "groupByDriver ar ts =
     array_sort (by_commission ar) (map snd (groupByDriver_loop ar ts []))"

text \<open>
  A property of IEEE 754 subtraction on doubles \<open>xs\<close>: the difference of two of them is
  negative, zero or positive as the two compare, so it is at most zero exactly when the
  first is at most the second.
\<close>

definition sign_exact :: "js_arith \<Rightarrow> numeric list \<Rightarrow> bool" where
  "sign_exact ar xs =
     list_all (\<lambda>a. list_all (\<lambda>b. (js_minus ar a b \<le> 0) = (a \<le> b)) xs) xs"

record ReconciliationPage =
  statements :: "DriverStatement list"
  loading :: bool
  fetchError :: "string option"
  toast :: "string option"

definition join_driver :: "Database \<Rightarrow> Trip \<Rightarrow> DriverRef option" where
  "join_driver db t =
     (case driver_id t of
        None \<Rightarrow> None
      | Some did \<Rightarrow>
          map_option
            (\<lambda>d. \<lparr>dr_id = d_id d, dr_full_name = d_full_name d,
                   dr_phone_number = d_phone_number d\<rparr>)
            (find (\<lambda>d. d_id d = did) (drivers db)))"

text \<open>
  The query of \<open>fetchData\<close>: Completed trips with \<open>commission_settled = false\<close>, ordered
  by \<open>created_at\<close> (rows of equal \<open>created_at\<close> in table order).
\<close>

definition select_unsettled :: "Database \<Rightarrow> UnsettledTrip list" where
  "select_unsettled db =
     map (\<lambda>t. Trip.extend t (UnsettledTrip.fields (join_driver db t)))
       (sort_key created_at
          (filter (\<lambda>t. status t = Completed \<and> commission_settled t = False) (trips db)))"

text \<open>
  A call of the store answers with an \<open>error\<close> or applies the statement. The answer is
  an input of each handler: \<open>Some msg\<close> for an error with that message, in which case
  the statement (a single SQL statement) has changed nothing.
\<close>

definition fetchData ::
  "js_arith \<Rightarrow> string option \<Rightarrow> Database \<Rightarrow> ReconciliationPage \<Rightarrow> ReconciliationPage" where
  "fetchData ar fault db page =
     (case fault of
        Some msg \<Rightarrow> page\<lparr>fetchError := Some msg, loading := False\<rparr>
      | None \<Rightarrow> page\<lparr>statements := groupByDriver ar (select_unsettled db),
                       fetchError := None, loading := False\<rparr>)"

text \<open>What a handler throws: an error object with its message.\<close>

datatype error = Error string

definition handleSettle ::
  "string option \<Rightarrow> uuid \<Rightarrow> uuid list \<Rightarrow> Database \<times> ReconciliationPage
     \<Rightarrow> error option \<times> Database \<times> ReconciliationPage" where
  "handleSettle fault driverId tripIds w =
     (case w of (db, page) \<Rightarrow>
        (case fault of
           Some msg \<Rightarrow>
             (Some (Error msg), db,
              page\<lparr>toast := Some ''Error settling balance. Please try again.''\<rparr>)
         | None \<Rightarrow>
             (None,
              update_trips (no_patch\<lparr>set_commission_settled := Some True\<rparr>)
                (\<lambda>t. t_id t \<in> set tripIds) db,
              page\<lparr>statements := filter (\<lambda>s. dr_id (s_driver s) \<noteq> driverId) (statements page),
                    toast := Some ''Balance settled successfully''\<rparr>)))"

text \<open>\<open>DriverCard.handleSettle\<close>: settles the trips of the statement that is displayed.\<close>

definition DriverCard_handleSettle ::
  "string option \<Rightarrow> DriverStatement \<Rightarrow> Database \<times> ReconciliationPage
     \<Rightarrow> error option \<times> Database \<times> ReconciliationPage" where
  "DriverCard_handleSettle fault statement w =
     handleSettle fault (dr_id (s_driver statement)) (map t_id (s_trips statement)) w"

section \<open>Dispatch board (src/app/dashboard/page.tsx)\<close>

record TripWithRelations = Trip +
  customer :: Customer
  driver_rel :: "Driver option"

record AvailableDriver = Driver +
  corridors :: "string list"

definition STATUSES :: "TripStatus list" where
  "STATUSES = [Pending, Confirmed, InProgress, Completed]"

text \<open>
  The one-step successor of a status in the order of \<open>STATUSES\<close>, the forward order of
  the lifecycle: the status that follows it in the list, if there is one.
\<close>

definition successor :: "TripStatus \<Rightarrow> TripStatus option" where
  "successor s =
     (case dropWhile (\<lambda>x. x \<noteq> s) STATUSES of _ # n # _ \<Rightarrow> Some n | _ \<Rightarrow> None)"

text \<open>\<open>ADVANCE_CONFIG\<close>, without its style classes: a partial table on the statuses.\<close>

record AdvanceCfg =
  cfg_label :: string
  cfg_next :: TripStatus

fun ADVANCE_CONFIG :: "TripStatus \<Rightarrow> AdvanceCfg option" where
  "ADVANCE_CONFIG Confirmed = Some \<lparr>cfg_label = ''Mark In Progress'', cfg_next = InProgress\<rparr>"
| "ADVANCE_CONFIG InProgress = Some \<lparr>cfg_label = ''Mark Completed'', cfg_next = Completed\<rparr>"
| "ADVANCE_CONFIG Pending = None"
| "ADVANCE_CONFIG Completed = None"

text \<open>The state of \<open>DashboardPage\<close> that its handlers read and write.\<close>

record DashboardPage =
  dash_trips :: "TripWithRelations list"
  selectedTrip :: "TripWithRelations option"
  showNewTripModal :: bool
  dash_toast :: "string option"

text \<open>
  \<open>handleConfirmAssignment\<close>. \<open>agreedFare\<close> is a finite number: the only caller passes
  \<open>parsedFare\<close> behind the guard \<open>!isNaN(parsedFare) && parsedFare > 0\<close>. \<open>now\<close> is the
  clock read by \<open>new Date()\<close>. The store computes the commission by its trigger; the
  board gets the client's own product \<open>agreedFare * 0.12\<close>.
\<close>

definition handleConfirmAssignment ::
  "js_arith \<Rightarrow> string option \<Rightarrow> timestamp \<Rightarrow> AvailableDriver \<Rightarrow> numeric
     \<Rightarrow> Database \<times> DashboardPage \<Rightarrow> error option \<times> Database \<times> DashboardPage" where
  "handleConfirmAssignment ar fault now drv agreedFare w =
     (case w of (db, page) \<Rightarrow>
        (case selectedTrip page of
           None \<Rightarrow> (None, db, page)
         | Some sel \<Rightarrow>
             (case fault of
                Some msg \<Rightarrow> (Some (Error msg), db, page)
              | None \<Rightarrow>
                  (None,
                   update_trips
                     (no_patch\<lparr>set_driver_id := Some (Some (d_id drv)),
                               set_agreed_fare := Some (Some agreedFare),
                               set_status := Some Confirmed\<rparr>)
                     (\<lambda>t. t_id t = t_id sel) db,
                   page\<lparr>dash_trips :=
                          map (\<lambda>t. if t_id t = t_id sel
                                    then t\<lparr>status := Confirmed,
                                           driver_id := Some (d_id drv),
                                           driver_rel := Some (Driver.truncate drv),
                                           agreed_fare := Some agreedFare,
                                           platform_commission :=
                                             Some (times_point12 ar agreedFare),
                                           updated_at := now\<rparr>
                                    else t)
                            (dash_trips page),
                        selectedTrip := None\<rparr>))))"

text \<open>
  \<open>MatchmakingModal\<close>. \<open>parsedFare\<close> is \<open>parseFloat(fareInput)\<close>: a number or \<open>NaN\<close>.
\<close>

datatype jsnumber = NaN | Num numeric

fun isNaN :: "jsnumber \<Rightarrow> bool" where
  "isNaN NaN = True"
| "isNaN (Num x) = False"

text \<open>\<open>parsedFare > 0\<close>: a comparison with \<open>NaN\<close> is false.\<close>

fun greater_than_zero :: "jsnumber \<Rightarrow> bool" where
  "greater_than_zero NaN = False"
| "greater_than_zero (Num x) = (x > 0)"

record MatchmakingModal =
  mm_trip :: TripWithRelations
  mm_drivers :: "AvailableDriver list"
  selectedDriverId :: string
  parsedFare :: jsnumber
  submitting :: bool
  submitError :: "string option"

definition selectedDriver :: "MatchmakingModal \<Rightarrow> AvailableDriver option" where
  "selectedDriver modal = find (\<lambda>d. d_id d = selectedDriverId modal) (mm_drivers modal)"

definition canConfirm :: "MatchmakingModal \<Rightarrow> bool" where
  "canConfirm modal =
     (selectedDriver modal \<noteq> None \<and> \<not> isNaN (parsedFare modal)
      \<and> greater_than_zero (parsedFare modal))"

text \<open>
  \<open>MatchmakingModal.handleConfirm\<close>, with \<open>onConfirm = handleConfirmAssignment\<close>. An
  error thrown by \<open>onConfirm\<close> is caught and shown as \<open>submitError\<close>.
\<close>

definition handleConfirm ::
  "js_arith \<Rightarrow> string option \<Rightarrow> timestamp \<Rightarrow> MatchmakingModal \<Rightarrow> Database \<times> DashboardPage
     \<Rightarrow> MatchmakingModal \<times> Database \<times> DashboardPage" where
  "handleConfirm ar fault now modal w =
     (case selectedDriver modal of
        None \<Rightarrow> (modal, w)
      | Some drv \<Rightarrow>
          if \<not> canConfirm modal then (modal, w)
          else
            (case parsedFare modal of
               NaN \<Rightarrow> (modal, w)
             | Num fare \<Rightarrow>
                 (case handleConfirmAssignment ar fault now drv fare w of
                    (Some (Error msg), w') \<Rightarrow>
                      (modal\<lparr>submitting := False, submitError := Some msg\<rparr>, w')
                  | (None, w') \<Rightarrow>
                      (modal\<lparr>submitting := True, submitError := None\<rparr>, w'))))"

text \<open>\<open>handleAdvanceStatus\<close>: \<open>trip\<close> is the card's trip, as the page holds it.\<close>

definition handleAdvanceStatus ::
  "string option \<Rightarrow> timestamp \<Rightarrow> TripWithRelations \<Rightarrow> Database \<times> DashboardPage
     \<Rightarrow> error option \<times> Database \<times> DashboardPage" where
  "handleAdvanceStatus fault now trip w =
     (case w of (db, page) \<Rightarrow>
        (case ADVANCE_CONFIG (status trip) of
           None \<Rightarrow> (None, db, page)
         | Some cfg \<Rightarrow>
             (case fault of
                Some msg \<Rightarrow> (Some (Error msg), db, page)
              | None \<Rightarrow>
                  (None,
                   update_trips (no_patch\<lparr>set_status := Some (cfg_next cfg)\<rparr>)
                     (\<lambda>t. t_id t = t_id trip) db,
                   page\<lparr>dash_trips :=
                          map (\<lambda>t. if t_id t = t_id trip
                                    then t\<lparr>status := cfg_next cfg, updated_at := now\<rparr>
                                    else t)
                            (dash_trips page)\<rparr>))))"

text \<open>
  The board gives \<open>onAdvance\<close> to the Confirmed and In Progress columns only, and
  \<open>TripCard.handleAdvance\<close> returns when it has no \<open>onAdvance\<close>.
\<close>

definition TripCard_handleAdvance ::
  "string option \<Rightarrow> timestamp \<Rightarrow> TripStatus \<Rightarrow> TripWithRelations \<Rightarrow> Database \<times> DashboardPage
     \<Rightarrow> error option \<times> Database \<times> DashboardPage" where
  "TripCard_handleAdvance fault now column trip w =
     (if column = Confirmed \<or> column = InProgress
      then handleAdvanceStatus fault now trip w
      else (case w of (db, page) \<Rightarrow> (None, db, page)))"

definition handleTripCreated :: "TripWithRelations \<Rightarrow> DashboardPage \<Rightarrow> DashboardPage" where
  "handleTripCreated newTrip page = page\<lparr>
     dash_trips := newTrip # dash_trips page,
     showNewTripModal := False,
     dash_toast := Some ''Trip logged successfully''\<rparr>"

section \<open>New trip form (NewTripModal)\<close>

text \<open>
  \<open>String.prototype.trim\<close> removes the leading and trailing white space and line
  terminators of ECMAScript: tab U+0009, line feed U+000A, vertical tab U+000B, form feed
  U+000C, carriage return U+000D, the byte order mark U+FEFF, the line and paragraph
  separators U+2028 and U+2029, and the space separators of Unicode: U+0020, U+00A0,
  U+1680, U+2000 to U+200A, U+202F, U+205F and U+3000. Each is one code unit.
\<close>

definition is_space :: "code_unit \<Rightarrow> bool" where
  "is_space u =
     (u \<in> set [0x0009, 0x000A, 0x000B, 0x000C, 0x000D, 0x0020, 0x00A0, 0x1680,
                0x2028, 0x2029, 0x202F, 0x205F, 0x3000, 0xFEFF]
      \<or> (0x2000 \<le> u \<and> u \<le> 0x200A))"

definition trim :: "ustring \<Rightarrow> ustring" where
  "trim s = rev (dropWhile is_space (rev (dropWhile is_space s)))"

record NewTripModal =
  fullName :: ustring
  phoneNumber :: ustring
  businessType :: ustring
  loadDescription :: ustring
  pickupLocation :: ustring
  dropoffLocation :: ustring
  pickupTime :: ustring
  nt_submitting :: bool
  nt_submitError :: "string option"

definition canSubmit :: "NewTripModal \<Rightarrow> bool" where
  "canSubmit m =
     (trim (fullName m) \<noteq> [] \<and> trim (phoneNumber m) \<noteq> [] \<and> trim (loadDescription m) \<noteq> []
      \<and> trim (pickupLocation m) \<noteq> [] \<and> trim (dropoffLocation m) \<noteq> [] \<and> pickupTime m \<noteq> [])"

text \<open>
  What \<open>handleSubmit\<close> takes from outside: the answers of the store to its three
  calls, the identifiers and the time that the store's defaults generate, and
  \<open>pickup_iso\<close>, the value of \<open>new Date(pickupTime).toISOString()\<close>, which is \<open>None\<close> when
  the date is invalid and the call throws.
\<close>

record SubmitEnv =
  lookupError :: "string option"
  insertCustomerError :: "string option"
  tripError :: "string option"
  new_customer_id :: uuid
  new_trip_id :: uuid
  env_now :: timestamp
  pickup_iso :: "timestamp option"

definition submit_failed :: "string \<Rightarrow> NewTripModal \<Rightarrow> NewTripModal" where
  "submit_failed msg m = m\<lparr>nt_submitError := Some msg, nt_submitting := False\<rparr>"

text \<open>
  Modelled from the spec: the default of the column \<open>commission_settled\<close>, which
  db_schema.md does not declare (``commission_paid, commission_settled: booleans, both
  default false'').
\<close>

definition commission_settled_default :: bool where
  "commission_settled_default = False"

text \<open>
  Step 3 of \<open>handleSubmit\<close>: the insert of the trip. The columns that the insert does
  not name take their defaults: \<open>platform_commission\<close>, \<open>customer_verified_amount\<close> and
  \<open>driver_verified_amount\<close> are null, \<open>created_at\<close> and \<open>updated_at\<close> are \<open>now()\<close>.
  The row comes back with its joined customer and driver.
\<close>

definition insert_new_trip ::
  "SubmitEnv \<Rightarrow> NewTripModal \<Rightarrow> Customer \<Rightarrow> Database \<times> DashboardPage
     \<Rightarrow> NewTripModal \<times> Database \<times> DashboardPage" where
  "insert_new_trip env m cust w =
     (case w of (db, page) \<Rightarrow>
        (case pickup_iso env of
           None \<Rightarrow> (submit_failed ''Invalid time value'' m, db, page)
         | Some pickupIso \<Rightarrow>
             (case tripError env of
                Some msg \<Rightarrow> (submit_failed msg m, db, page)
              | None \<Rightarrow>
                  (let row = \<lparr>t_id = new_trip_id env, customer_id = c_id cust,
                              driver_id = None,
                              load_description = trim (loadDescription m),
                              pickup_location = trim (pickupLocation m),
                              dropoff_location = trim (dropoffLocation m),
                              pickup_time = pickupIso,
                              agreed_fare = None, platform_commission = None,
                              status = Pending,
                              customer_verified_amount = None,
                              driver_verified_amount = None,
                              commission_paid = False,
                              commission_settled = commission_settled_default,
                              created_at = env_now env, updated_at = env_now env\<rparr>;
                       db' = insert_trip row db;
                       newTrip = Trip.extend (last (trips db'))
                                   (TripWithRelations.fields cust None)
                   in (m\<lparr>nt_submitting := True, nt_submitError := None\<rparr>, db',
                       handleTripCreated newTrip page)))))"

definition handleSubmit ::
  "SubmitEnv \<Rightarrow> NewTripModal \<Rightarrow> Database \<times> DashboardPage
     \<Rightarrow> NewTripModal \<times> Database \<times> DashboardPage" where
  "handleSubmit env m w =
     (case w of (db, page) \<Rightarrow>
        if \<not> canSubmit m \<or> nt_submitting m then (m, db, page)
        else
          (case lookupError env of
             Some msg \<Rightarrow> (submit_failed msg m, db, page)
           | None \<Rightarrow>
               (case take 1 (filter (\<lambda>c. c_phone_number c = trim (phoneNumber m))
                                (customers db)) of
                  existing # _ \<Rightarrow> insert_new_trip env m existing (db, page)
                | [] \<Rightarrow>
                    (case insertCustomerError env of
                       Some msg \<Rightarrow> (submit_failed msg m, db, page)
                     | None \<Rightarrow>
                         (let newCustomer =
                                \<lparr>c_id = new_customer_id env,
                                 c_full_name = trim (fullName m),
                                 c_phone_number = trim (phoneNumber m),
                                 c_business_type =
                                   (if trim (businessType m) = [] then None
                                    else Some (trim (businessType m))),
                                 c_created_at = env_now env, c_updated_at = env_now env\<rparr>
                          in insert_new_trip env m newCustomer
                               (db\<lparr>customers := customers db @ [newCustomer]\<rparr>, page))))))"

section \<open>Example data\<close>

text \<open>
  An arithmetic for the examples: the exact one. On the amounts of the examples the
  client's doubles compute the same: their sums and differences are whole numbers, and
  the products are \<open>10000 * 0.12 = 1200\<close>, \<open>5000 * 0.12 = 600\<close>, \<open>20000 * 0.12 = 2400\<close>,
  \<open>7000 * 0.12 = 840\<close> and \<open>8000 * 0.12 = 960\<close> in doubles too.
\<close>

definition example_arith :: js_arith where
  "example_arith =
     \<lparr>js_plus = (\<lambda>a b. a + b), js_minus = (\<lambda>a b. a - b),
      times_point12 = (\<lambda>x. x * (12 / 100))\<rparr>"

definition example_trip :: "uuid \<Rightarrow> uuid option \<Rightarrow> numeric option \<Rightarrow> TripStatus \<Rightarrow> Trip" where
  "example_trip tid did fare st =
     \<lparr>t_id = tid, customer_id = ''c1'', driver_id = did,
      load_description = utf16 ''Maize, 90 bags'', pickup_location = utf16 ''Nakuru'',
      dropoff_location = utf16 ''Nairobi'', pickup_time = 100,
      agreed_fare = fare, platform_commission = deriveCommission fare, status = st,
      customer_verified_amount = None, driver_verified_amount = None,
      commission_paid = False, commission_settled = False,
      created_at = 10, updated_at = 10\<rparr>"

definition example_customer :: Customer where
  "example_customer =
     \<lparr>c_id = ''c1'', c_full_name = utf16 ''Wanjiru Kamau'',
      c_phone_number = utf16 ''0712345678'', c_business_type = Some (utf16 ''Cereals''),
      c_created_at = 1, c_updated_at = 1\<rparr>"

definition example_driver :: "uuid \<Rightarrow> string \<Rightarrow> Driver" where
  "example_driver did name =
     \<lparr>d_id = did, d_full_name = name, d_phone_number = ''0700000000'',
      vehicle_type = ''Lorry'', registration_number = ''KAA 001A'',
      sacco_affiliation = None, reliability_score = 100\<rparr>"

definition example_db :: Database where
  "example_db =
     \<lparr>customers = [example_customer],
      drivers = [example_driver ''A'' ''Achieng'', example_driver ''B'' ''Baraka''],
      trips = [example_trip ''trip1'' (Some ''A'') (Some 10000) Completed,
               example_trip ''trip2'' (Some ''A'') (Some 5000) Completed,
               example_trip ''trip3'' (Some ''B'') (Some 20000) Completed,
               example_trip ''trip4'' None None Pending],
      audit_logs = []\<rparr>"

definition example_form :: NewTripModal where
  "example_form =
     \<lparr>fullName = utf16 '' W. Kamau '', phoneNumber = 0x00A0 # utf16 '' 0712345678 '',
      businessType = utf16 ''Hardware'', loadDescription = utf16 ''Cement, 200 bags'',
      pickupLocation = utf16 ''Athi River'', dropoffLocation = utf16 ''Kisumu'',
      pickupTime = utf16 ''2026-01-05T08:00'',
      nt_submitting = False, nt_submitError = None\<rparr>"

definition example_env :: SubmitEnv where
  "example_env =
     \<lparr>lookupError = None, insertCustomerError = None, tripError = None,
      new_customer_id = ''c2'', new_trip_id = ''trip5'', env_now = 20,
      pickup_iso = Some 200\<rparr>"

definition example_board :: DashboardPage where
  "example_board =
     \<lparr>dash_trips = [], selectedTrip = None, showNewTripModal = True, dash_toast = None\<rparr>"

definition example_ref :: "uuid \<Rightarrow> DriverRef" where
  "example_ref did =
     \<lparr>dr_id = did, dr_full_name = ''Driver '' @ did, dr_phone_number = ''0700000000''\<rparr>"

text \<open>A fetched trip whose \<open>platform_commission\<close> is null, and one without joined driver.\<close>

definition example_unsettled :: "uuid \<Rightarrow> uuid \<Rightarrow> numeric \<Rightarrow> UnsettledTrip" where
  "example_unsettled tid did fare =
     Trip.extend ((example_trip tid (Some did) (Some fare) Completed)\<lparr>platform_commission := None\<rparr>)
       (UnsettledTrip.fields (Some (example_ref did)))"

definition example_unjoined :: UnsettledTrip where
  "example_unjoined =
     Trip.extend (example_trip ''trip9'' (Some ''A'') (Some 10000) Completed)
       (UnsettledTrip.fields None)"

text \<open>
  The reconciliation page as loaded from the example database, and the database a
  moment later, when \<open>trip6\<close> of driver A has been completed as well.
\<close>

definition example_page :: ReconciliationPage where
  "example_page =
     fetchData example_arith None example_db
       \<lparr>statements = [], loading = True, fetchError = None, toast = None\<rparr>"

definition example_db_later :: Database where
  "example_db_later =
     example_db\<lparr>trips := trips example_db
                  @ [example_trip ''trip6'' (Some ''A'') (Some 7000) Completed]\<rparr>"

text \<open>A card of the board, an available driver, and the assignment form filled in.\<close>

definition example_card :: "Trip \<Rightarrow> TripWithRelations" where
  "example_card t = Trip.extend t (TripWithRelations.fields example_customer None)"

definition example_available :: "uuid \<Rightarrow> string \<Rightarrow> AvailableDriver" where
  "example_available did name =
     Driver.extend (example_driver did name) (AvailableDriver.fields [''Nakuru - Nairobi''])"

definition example_modal :: MatchmakingModal where
  "example_modal =
     \<lparr>mm_trip = example_card (example_trip ''trip4'' None None Pending),
      mm_drivers = [example_available ''A'' ''Achieng'', example_available ''B'' ''Baraka''],
      selectedDriverId = ''B'', parsedFare = Num 8000,
      submitting = False, submitError = None\<rparr>"

definition example_selection :: DashboardPage where
  "example_selection =
     \<lparr>dash_trips = map example_card (trips example_db),
      selectedTrip = Some (example_card (example_trip ''trip4'' None None Pending)),
      showNewTripModal = False, dash_toast = None\<rparr>"

definition example_db_confirmed :: Database where
  "example_db_confirmed =
     example_db\<lparr>trips := [example_trip ''trip7'' (Some ''B'') (Some 3000) Confirmed]\<rparr>"

text \<open>
  What the client's doubles compute on the amounts of the example of the specification
  (A 10000, A 5000, B 20000): the sums, the products by 0.12 and the differences of the
  two totals are exact.
\<close>

definition doubles_on_example :: "js_arith \<Rightarrow> bool" where
  "doubles_on_example ar =
     (js_plus ar 0 10000 = 10000 \<and> js_plus ar 10000 5000 = 15000
      \<and> js_plus ar 0 20000 = 20000
      \<and> times_point12 ar 10000 = 1200 \<and> times_point12 ar 5000 = 600
      \<and> times_point12 ar 20000 = 2400
      \<and> js_plus ar 0 1200 = 1200 \<and> js_plus ar 1200 600 = 1800 \<and> js_plus ar 0 2400 = 2400
      \<and> js_minus ar 2400 1800 = 600 \<and> js_minus ar 1800 2400 = - 600)"

section \<open>The store: commission and verification\<close>

lemma assign_columns_simps:
  "t_id (assign_columns p t) = t_id t"
  "agreed_fare (assign_columns p t) = (case set_agreed_fare p of None \<Rightarrow> agreed_fare t | Some v \<Rightarrow> v)"
  "platform_commission (assign_columns p t) =
     (case set_platform_commission p of None \<Rightarrow> platform_commission t | Some v \<Rightarrow> v)"
  "customer_verified_amount (assign_columns p t) =
     (case set_customer_verified_amount p of None \<Rightarrow> customer_verified_amount t | Some v \<Rightarrow> v)"
  "driver_verified_amount (assign_columns p t) =
     (case set_driver_verified_amount p of None \<Rightarrow> driver_verified_amount t | Some v \<Rightarrow> v)"
  "status (assign_columns p t) = (case set_status p of None \<Rightarrow> status t | Some v \<Rightarrow> v)"
  by (simp_all add: assign_columns_def)

lemma calculate_trip_commission_fields:
  "platform_commission (calculate_trip_commission r) = deriveCommission (agreed_fare r)"
  "agreed_fare (calculate_trip_commission r) = agreed_fare r"
  "t_id (calculate_trip_commission r) = t_id r"
  "customer_verified_amount (calculate_trip_commission r) = customer_verified_amount r"
  "driver_verified_amount (calculate_trip_commission r) = driver_verified_amount r"
  "status (calculate_trip_commission r) = status r"
  by (simp_all add: calculate_trip_commission_def deriveCommission_def split: option.splits)

lemma row_written_keeps_derived:
  "set_platform_commission p = None \<or> set_agreed_fare p \<noteq> None \<Longrightarrow> commission_derived t
     \<Longrightarrow> commission_derived (row_written p t)"
  by (cases "set_agreed_fare p")
     (auto simp: row_written_def calculate_trip_commission_fields commission_derived_def
        assign_columns_simps)

lemma trips_update_trips:
  "trips (update_trips p sel db) = map (\<lambda>t. if sel t then row_written p t else t) (trips db)"
  by (simp add: update_trips_def update_row_def Let_def)

lemma row_written_verified_amounts:
  "customer_verified_amount (row_written p t) =
     (case set_customer_verified_amount p of None \<Rightarrow> customer_verified_amount t | Some v \<Rightarrow> v)"
  "driver_verified_amount (row_written p t) =
     (case set_driver_verified_amount p of None \<Rightarrow> driver_verified_amount t | Some v \<Rightarrow> v)"
  "t_id (row_written p t) = t_id t"
  by (simp_all add: row_written_def calculate_trip_commission_fields assign_columns_simps)

lemma verification_trigger_fires:
  assumes "customer_verified_amount (row_written p OLD) \<noteq> customer_verified_amount OLD
           \<or> driver_verified_amount (row_written p OLD) \<noteq> driver_verified_amount OLD"
  shows "set_customer_verified_amount p \<noteq> None \<or> set_driver_verified_amount p \<noteq> None"
  using assms by (auto simp: row_written_verified_amounts)

lemma status_events_not_verification:
  "filter is_verification_event (log_trip_status_change OLD NEW) = []"
  by (simp add: log_trip_status_change_def is_verification_event_def)

lemma verification_events_are_verification:
  "filter is_verification_event (verify_trip_amounts OLD NEW) = verify_trip_amounts OLD NEW"
  by (simp add: verify_trip_amounts_def is_verification_event_def split: option.splits)

lemma verification_events_of_update:
  "filter is_verification_event (snd (update_row p OLD)) =
     (if set_customer_verified_amount p \<noteq> None \<or> set_driver_verified_amount p \<noteq> None
      then verify_trip_amounts OLD (row_written p OLD) else [])"
  by (simp add: update_row_def Let_def after_update_def status_events_not_verification
        verification_events_are_verification)

lemma verify_trip_amounts_silent:
  "customer_verified_amount NEW = None \<or> driver_verified_amount NEW = None
   \<or> (customer_verified_amount NEW = customer_verified_amount OLD
       \<and> driver_verified_amount NEW = driver_verified_amount OLD)
   \<Longrightarrow> verify_trip_amounts OLD NEW = []"
  by (auto simp: verify_trip_amounts_def split: option.splits)

lemma verify_trip_amounts_event:
  "customer_verified_amount NEW = Some ca \<Longrightarrow> driver_verified_amount NEW = Some da
   \<Longrightarrow> customer_verified_amount NEW \<noteq> customer_verified_amount OLD
       \<or> driver_verified_amount NEW \<noteq> driver_verified_amount OLD
   \<Longrightarrow> verify_trip_amounts OLD NEW =
        [if ca \<noteq> da then
           \<lparr>table_name = ''trips'', record_id = t_id NEW, action = ''VERIFICATION_MISMATCH'',
            old_data = None,
            new_data = Some [(''customer_amount'', JNumber ca), (''driver_amount'', JNumber da)],
            message = Some ''Discrepancy detected! Customer and driver reported different amounts.''\<rparr>
         else
           \<lparr>table_name = ''trips'', record_id = t_id NEW, action = ''VERIFICATION_MATCH'',
            old_data = None, new_data = None,
            message = Some ''Amounts verified successfully by both parties.''\<rparr>]"
  by (auto simp: verify_trip_amounts_def)

text \<open>
  Claim C3. For an UPDATE of a row after which both verified amounts are set and at least
  one of them differs from its old value, the verification trigger appends exactly one
  event: VERIFICATION_MISMATCH with both amounts and its message when the amounts differ,
  VERIFICATION_MATCH with its message when they are equal. When an amount is null or
  neither has changed it appends none. The only other events of the UPDATE are those of
  the status trigger. The row that is stored is the row that was written (the trigger
  changes nothing in it), and every selected row is written.
\<close>

theorem verification_safeguard:
  "(customer_verified_amount (row_written p OLD) = Some ca
     \<and> driver_verified_amount (row_written p OLD) = Some da
     \<and> (customer_verified_amount (row_written p OLD) \<noteq> customer_verified_amount OLD
          \<or> driver_verified_amount (row_written p OLD) \<noteq> driver_verified_amount OLD)
     \<longrightarrow> filter is_verification_event (snd (update_row p OLD)) =
          [if ca \<noteq> da then
             \<lparr>table_name = ''trips'', record_id = t_id OLD, action = ''VERIFICATION_MISMATCH'',
              old_data = None,
              new_data = Some [(''customer_amount'', JNumber ca), (''driver_amount'', JNumber da)],
              message = Some ''Discrepancy detected! Customer and driver reported different amounts.''\<rparr>
           else
             \<lparr>table_name = ''trips'', record_id = t_id OLD, action = ''VERIFICATION_MATCH'',
              old_data = None, new_data = None,
              message = Some ''Amounts verified successfully by both parties.''\<rparr>])
   \<and> (customer_verified_amount (row_written p OLD) = None
        \<or> driver_verified_amount (row_written p OLD) = None
        \<or> (customer_verified_amount (row_written p OLD) = customer_verified_amount OLD
            \<and> driver_verified_amount (row_written p OLD) = driver_verified_amount OLD)
       \<longrightarrow> filter is_verification_event (snd (update_row p OLD)) = [])
   \<and> snd (update_row p OLD) =
         filter is_verification_event (snd (update_row p OLD))
         @ (if set_status p \<noteq> None then log_trip_status_change OLD (row_written p OLD) else [])
   \<and> fst (update_row p OLD) = row_written p OLD
   \<and> trips (update_trips p sel db) = map (\<lambda>t. if sel t then row_written p t else t) (trips db)
   \<and> audit_logs (update_trips p sel db) =
         audit_logs db @ concat (map (\<lambda>t. snd (update_row p t)) (filter sel (trips db)))"
proof (intro conjI impI)
  assume a: "customer_verified_amount (row_written p OLD) = Some ca
     \<and> driver_verified_amount (row_written p OLD) = Some da
     \<and> (customer_verified_amount (row_written p OLD) \<noteq> customer_verified_amount OLD
          \<or> driver_verified_amount (row_written p OLD) \<noteq> driver_verified_amount OLD)"
  then have fires: "set_customer_verified_amount p \<noteq> None \<or> set_driver_verified_amount p \<noteq> None"
    using verification_trigger_fires by blast
  from a have "verify_trip_amounts OLD (row_written p OLD) =
        [if ca \<noteq> da then
           \<lparr>table_name = ''trips'', record_id = t_id (row_written p OLD),
            action = ''VERIFICATION_MISMATCH'', old_data = None,
            new_data = Some [(''customer_amount'', JNumber ca), (''driver_amount'', JNumber da)],
            message = Some ''Discrepancy detected! Customer and driver reported different amounts.''\<rparr>
         else
           \<lparr>table_name = ''trips'', record_id = t_id (row_written p OLD),
            action = ''VERIFICATION_MATCH'', old_data = None, new_data = None,
            message = Some ''Amounts verified successfully by both parties.''\<rparr>]"
    by (intro verify_trip_amounts_event) blast+
  with fires show "filter is_verification_event (snd (update_row p OLD)) =
          [if ca \<noteq> da then
             \<lparr>table_name = ''trips'', record_id = t_id OLD, action = ''VERIFICATION_MISMATCH'',
              old_data = None,
              new_data = Some [(''customer_amount'', JNumber ca), (''driver_amount'', JNumber da)],
              message = Some ''Discrepancy detected! Customer and driver reported different amounts.''\<rparr>
           else
             \<lparr>table_name = ''trips'', record_id = t_id OLD, action = ''VERIFICATION_MATCH'',
              old_data = None, new_data = None,
              message = Some ''Amounts verified successfully by both parties.''\<rparr>]"
    by (simp only: verification_events_of_update row_written_verified_amounts(3) if_True)
next
  assume "customer_verified_amount (row_written p OLD) = None
        \<or> driver_verified_amount (row_written p OLD) = None
        \<or> (customer_verified_amount (row_written p OLD) = customer_verified_amount OLD
            \<and> driver_verified_amount (row_written p OLD) = driver_verified_amount OLD)"
  then have "verify_trip_amounts OLD (row_written p OLD) = []"
    by (rule verify_trip_amounts_silent)
  then show "filter is_verification_event (snd (update_row p OLD)) = []"
    by (simp add: verification_events_of_update)
next
  show "snd (update_row p OLD) =
         filter is_verification_event (snd (update_row p OLD))
         @ (if set_status p \<noteq> None then log_trip_status_change OLD (row_written p OLD) else [])"
    unfolding verification_events_of_update
    by (simp add: update_row_def Let_def after_update_def)
next
  show "fst (update_row p OLD) = row_written p OLD" by (simp add: update_row_def Let_def)
next
  show "trips (update_trips p sel db) = map (\<lambda>t. if sel t then row_written p t else t) (trips db)"
    by (rule trips_update_trips)
next
  show "audit_logs (update_trips p sel db) =
         audit_logs db @ concat (map (\<lambda>t. snd (update_row p t)) (filter sel (trips db)))"
    by (simp add: update_trips_def)
qed


text \<open>
  \<open>trip1\<close> with 10000 reported by the driver: the customer reporting 9500 gives a
  mismatch, the customer reporting 10000 gives a match, and a customer amount alone
  (no driver amount) gives no event.
\<close>

theorem verification_safeguard_witness:
  "filter is_verification_event
     (snd (update_row (no_patch\<lparr>set_customer_verified_amount := Some (Some 9500)\<rparr>)
        ((example_trip ''trip1'' (Some ''A'') (Some 10000) Completed)
           \<lparr>driver_verified_amount := Some 10000\<rparr>))) =
     [\<lparr>table_name = ''trips'', record_id = ''trip1'', action = ''VERIFICATION_MISMATCH'',
       old_data = None,
       new_data = Some [(''customer_amount'', JNumber 9500), (''driver_amount'', JNumber 10000)],
       message = Some ''Discrepancy detected! Customer and driver reported different amounts.''\<rparr>]
   \<and> filter is_verification_event
     (snd (update_row (no_patch\<lparr>set_customer_verified_amount := Some (Some 10000)\<rparr>)
        ((example_trip ''trip1'' (Some ''A'') (Some 10000) Completed)
           \<lparr>driver_verified_amount := Some 10000\<rparr>))) =
     [\<lparr>table_name = ''trips'', record_id = ''trip1'', action = ''VERIFICATION_MATCH'',
       old_data = None, new_data = None,
       message = Some ''Amounts verified successfully by both parties.''\<rparr>]
   \<and> filter is_verification_event
     (snd (update_row (no_patch\<lparr>set_customer_verified_amount := Some (Some 9500)\<rparr>)
        (example_trip ''trip1'' (Some ''A'') (Some 10000) Completed))) = []"
proof -
  let ?old = "(example_trip ''trip1'' (Some ''A'') (Some 10000) Completed)
                \<lparr>driver_verified_amount := Some 10000\<rparr>"
  let ?p = "no_patch\<lparr>set_customer_verified_amount := Some (Some 9500)\<rparr>"
  let ?q = "no_patch\<lparr>set_customer_verified_amount := Some (Some 10000)\<rparr>"
  have p: "customer_verified_amount (row_written ?p ?old) = Some 9500
           \<and> driver_verified_amount (row_written ?p ?old) = Some 10000
           \<and> (customer_verified_amount (row_written ?p ?old) \<noteq> customer_verified_amount ?old
                \<or> driver_verified_amount (row_written ?p ?old) \<noteq> driver_verified_amount ?old)"
    by (simp add: row_written_verified_amounts no_patch_def example_trip_def)
  have q: "customer_verified_amount (row_written ?q ?old) = Some 10000
           \<and> driver_verified_amount (row_written ?q ?old) = Some 10000
           \<and> (customer_verified_amount (row_written ?q ?old) \<noteq> customer_verified_amount ?old
                \<or> driver_verified_amount (row_written ?q ?old) \<noteq> driver_verified_amount ?old)"
    by (simp add: row_written_verified_amounts no_patch_def example_trip_def)
  have r: "driver_verified_amount
             (row_written ?p (example_trip ''trip1'' (Some ''A'') (Some 10000) Completed)) = None"
    by (simp add: row_written_verified_amounts no_patch_def example_trip_def)
  have id: "t_id ?old = ''trip1''" by (simp add: example_trip_def)
  note mismatch = verification_safeguard [of ?p ?old 9500 10000, THEN conjunct1, THEN mp, OF p]
  note match = verification_safeguard [of ?q ?old 10000 10000, THEN conjunct1, THEN mp, OF q]
  note silent = verification_safeguard
      [of ?p "example_trip ''trip1'' (Some ''A'') (Some 10000) Completed",
       THEN conjunct2, THEN conjunct1, THEN mp, OF disjI2, OF disjI1, OF r]
  show ?thesis
    using mismatch match silent by (simp add: id)
qed


section \<open>Creating a trip\<close>

lemma canSubmit_example_form: "canSubmit example_form"
  by (simp add: canSubmit_def example_form_def trim_def is_space_def utf16_def)


lemma blank_name_cannot_be_submitted:
  "trim [0x00A0, 0x2003, 0x0020] = []"
  "\<not> canSubmit (example_form\<lparr>fullName := [0x00A0, 0x2003, 0x0020]\<rparr>)"
  by (simp_all add: canSubmit_def trim_def is_space_def)

lemma take_one_filter:
  "take (Suc 0) (filter P xs) = (case find P xs of None \<Rightarrow> [] | Some x \<Rightarrow> [x])"
  by (induction xs) auto

lemma insert_new_trip_cases:
  assumes "insert_new_trip env m cust (db, page) = (m', db', page')"
  shows "customers db' = customers db
     \<and> ((trips db' = trips db \<and> page' = page \<and> nt_submitError m' \<noteq> None)
        \<or> (\<exists>row. trips db' = trips db @ [row] \<and> t_id row = new_trip_id env
              \<and> customer_id row = c_id cust \<and> status row = Pending
              \<and> driver_id row = None \<and> agreed_fare row = None
              \<and> platform_commission row = None \<and> commission_paid row = False
              \<and> commission_settled row = False
              \<and> dash_trips page' =
                    Trip.extend row (TripWithRelations.fields cust None) # dash_trips page))"
  using assms
  by (auto simp: insert_new_trip_def Let_def insert_trip_def calculate_trip_commission_def
        submit_failed_def handleTripCreated_def commission_settled_default_def
      split: option.splits)

lemma insert_new_trip_succeeds:
  assumes "tripError env = None" "pickup_iso env = Some pt"
  shows "length (trips (fst (snd (insert_new_trip env m cust (db, page))))) = Suc (length (trips db))"
  using assms by (simp add: insert_new_trip_def Let_def insert_trip_def)

lemma insert_new_trip_fails:
  assumes "pickup_iso env = None \<or> tripError env \<noteq> None"
  shows "trips (fst (snd (insert_new_trip env m cust (db, page)))) = trips db"
  using assms by (auto simp: insert_new_trip_def split: option.splits)

lemma handleSubmit_creates_trip:
  assumes "canSubmit m" "\<not> nt_submitting m" "lookupError env = None"
    "insertCustomerError env = None" "tripError env = None" "pickup_iso env = Some pt"
  shows "length (trips (fst (snd (handleSubmit env m (db, page))))) = Suc (length (trips db))"
  using assms insert_new_trip_succeeds [of env pt]
  by (simp add: handleSubmit_def Let_def split: list.splits)

text \<open>
  Claim C9. Whatever \<open>handleSubmit\<close> does, it either creates no trip or appends exactly one
  row to \<open>trips\<close>, and that row has status Pending, no driver, no agreed fare, no
  platform commission and \<open>commission_paid = false\<close>; the same row is put on the board.
  When the form can be submitted and the store answers without error, the trip is created.
\<close>

theorem created_trip_starts_pending:
  assumes "handleSubmit env m (db, page) = (m', db', page')"
  shows "((trips db' = trips db \<and> page' = page)
          \<or> (\<exists>row. trips db' = trips db @ [row] \<and> t_id row = new_trip_id env
                \<and> status row = Pending \<and> driver_id row = None \<and> agreed_fare row = None
                \<and> platform_commission row = None \<and> commission_paid row = False
                \<and> (\<exists>cust. dash_trips page' =
                      Trip.extend row (TripWithRelations.fields cust None) # dash_trips page)))
     \<and> (canSubmit m \<and> \<not> nt_submitting m \<and> lookupError env = None
          \<and> insertCustomerError env = None \<and> tripError env = None \<and> pickup_iso env \<noteq> None
        \<longrightarrow> length (trips db') = Suc (length (trips db)))"
proof (intro conjI impI)
  show "(trips db' = trips db \<and> page' = page)
          \<or> (\<exists>row. trips db' = trips db @ [row] \<and> t_id row = new_trip_id env
                \<and> status row = Pending \<and> driver_id row = None \<and> agreed_fare row = None
                \<and> platform_commission row = None \<and> commission_paid row = False
                \<and> (\<exists>cust. dash_trips page' =
                      Trip.extend row (TripWithRelations.fields cust None) # dash_trips page))"
    using assms
    by (auto simp: handleSubmit_def submit_failed_def Let_def
          split: if_splits option.splits list.splits dest!: insert_new_trip_cases)
next
  assume ok: "canSubmit m \<and> \<not> nt_submitting m \<and> lookupError env = None
          \<and> insertCustomerError env = None \<and> tripError env = None \<and> pickup_iso env \<noteq> None"
  then obtain pt where pt: "pickup_iso env = Some pt" by auto
  have "length (trips (fst (snd (handleSubmit env m (db, page))))) = Suc (length (trips db))"
    using ok pt by (intro handleSubmit_creates_trip) simp_all
  then show "length (trips db') = Suc (length (trips db))" using assms by simp
qed


text \<open>The example form submitted against the example database: a fifth trip, Pending.\<close>

theorem created_trip_starts_pending_witness:
  "length (trips (fst (snd (handleSubmit example_env example_form (example_db, example_board)))))
     = 5
   \<and> status (last (trips (fst (snd
         (handleSubmit example_env example_form (example_db, example_board)))))) = Pending
   \<and> driver_id (last (trips (fst (snd
         (handleSubmit example_env example_form (example_db, example_board)))))) = None
   \<and> agreed_fare (last (trips (fst (snd
         (handleSubmit example_env example_form (example_db, example_board)))))) = None
   \<and> platform_commission (last (trips (fst (snd
         (handleSubmit example_env example_form (example_db, example_board)))))) = None
   \<and> commission_paid (last (trips (fst (snd
         (handleSubmit example_env example_form (example_db, example_board)))))) = False"
proof -
  let ?r = "handleSubmit example_env example_form (example_db, example_board)"
  have run: "?r = (fst ?r, fst (snd ?r), snd (snd ?r))" by simp
  have ok: "canSubmit example_form \<and> \<not> nt_submitting example_form
      \<and> lookupError example_env = None \<and> insertCustomerError example_env = None
      \<and> tripError example_env = None \<and> pickup_iso example_env \<noteq> None"
    by (intro conjI canSubmit_example_form) (simp_all add: example_form_def example_env_def)
  have len: "length (trips example_db) = 4" by (simp add: example_db_def)
  note main = created_trip_starts_pending [OF run]
  from main [THEN conjunct2, THEN mp, OF ok] len
  have five: "length (trips (fst (snd ?r))) = 5" by simp
  with len have "trips (fst (snd ?r)) \<noteq> trips example_db" by auto
  with main [THEN conjunct1] obtain row where
    "trips (fst (snd ?r)) = trips example_db @ [row]" "status row = Pending"
    "driver_id row = None" "agreed_fare row = None" "platform_commission row = None"
    "commission_paid row = False"
    by blast
  with five show ?thesis by simp
qed

section \<open>Returning customers\<close>

text \<open>
  Claim C10. When a customer with the submitted (trimmed) phone number exists, the table
  \<open>customers\<close> is left as it was, so no row is created and the submitted name and
  business type go nowhere; if the form can be submitted and the store answers the
  lookup and the insert of the trip without error, exactly one trip is created and it
  references the id of that customer, and otherwise no trip is created. The table
  \<open>customers\<close> changes only when no customer has that phone number, and then by exactly
  one new row built from the trimmed form fields.
\<close>

theorem returning_customer_is_reused:
  assumes "handleSubmit env m (db, page) = (m', db', page')"
  shows "(find (\<lambda>c. c_phone_number c = trim (phoneNumber m)) (customers db) = Some existing
          \<longrightarrow> customers db' = customers db
              \<and> (if canSubmit m \<and> \<not> nt_submitting m \<and> lookupError env = None
                     \<and> pickup_iso env \<noteq> None \<and> tripError env = None
                  then \<exists>row. trips db' = trips db @ [row] \<and> t_id row = new_trip_id env
                         \<and> customer_id row = c_id existing
                  else trips db' = trips db))
     \<and> (customers db' \<noteq> customers db
          \<longrightarrow> \<not> (\<exists>c \<in> set (customers db). c_phone_number c = trim (phoneNumber m))
              \<and> customers db' = customers db @
                   [\<lparr>c_id = new_customer_id env, c_full_name = trim (fullName m),
                     c_phone_number = trim (phoneNumber m),
                     c_business_type = (if trim (businessType m) = [] then None
                                        else Some (trim (businessType m))),
                     c_created_at = env_now env, c_updated_at = env_now env\<rparr>])"
proof (intro conjI impI)
  assume f: "find (\<lambda>c. c_phone_number c = trim (phoneNumber m)) (customers db) = Some existing"
  show "customers db' = customers db"
    using assms f
    by (auto simp: handleSubmit_def submit_failed_def take_one_filter
          split: if_splits option.splits dest!: insert_new_trip_cases)
  show "if canSubmit m \<and> \<not> nt_submitting m \<and> lookupError env = None
           \<and> pickup_iso env \<noteq> None \<and> tripError env = None
        then \<exists>row. trips db' = trips db @ [row] \<and> t_id row = new_trip_id env
               \<and> customer_id row = c_id existing
        else trips db' = trips db"
  proof (cases "canSubmit m \<and> \<not> nt_submitting m \<and> lookupError env = None")
    case False
    then have "trips db' = trips db"
      using assms
      by (auto simp: handleSubmit_def submit_failed_def split: option.splits if_splits)
    with False show ?thesis by auto
  next
    case True
    with assms f have run: "insert_new_trip env m existing (db, page) = (m', db', page')"
      by (simp add: handleSubmit_def take_one_filter)
    show ?thesis
    proof (cases "pickup_iso env \<noteq> None \<and> tripError env = None")
      case False
      then have "trips db' = trips db"
        using insert_new_trip_fails [of env m existing db page] run by auto
      with False show ?thesis by auto
    next
      case ok: True
      then obtain pt where "pickup_iso env = Some pt" by auto
      with ok have "length (trips db') = Suc (length (trips db))"
        using insert_new_trip_succeeds [of env pt m existing db page] run by simp
      then have "trips db' \<noteq> trips db" by auto
      with insert_new_trip_cases [OF run]
      have "\<exists>row. trips db' = trips db @ [row] \<and> t_id row = new_trip_id env
               \<and> customer_id row = c_id existing"
        by blast
      with True ok show ?thesis by simp
    qed
  qed
next
  assume ne: "customers db' \<noteq> customers db"
  have none: "find (\<lambda>c. c_phone_number c = trim (phoneNumber m)) (customers db) = None"
    using assms ne
    by (auto simp: handleSubmit_def submit_failed_def take_one_filter
          split: if_splits option.splits dest!: insert_new_trip_cases)
  then show "\<not> (\<exists>c \<in> set (customers db). c_phone_number c = trim (phoneNumber m))"
    by (simp add: find_None_iff)
  show "customers db' = customers db @
                   [\<lparr>c_id = new_customer_id env, c_full_name = trim (fullName m),
                     c_phone_number = trim (phoneNumber m),
                     c_business_type = (if trim (businessType m) = [] then None
                                        else Some (trim (businessType m))),
                     c_created_at = env_now env, c_updated_at = env_now env\<rparr>]"
    using assms ne none
    by (auto simp: handleSubmit_def submit_failed_def take_one_filter Let_def
          split: if_splits option.splits dest!: insert_new_trip_cases)
qed

lemma trim_example_phone: "trim (phoneNumber example_form) = utf16 ''0712345678''"
  by (simp add: example_form_def trim_def is_space_def utf16_def)

text \<open>
  The example form carries the phone number of the example customer between a no-break
  space and spaces: the customer is reused, and the one new trip, \<open>trip5\<close>, references
  \<open>c1\<close>. With another phone number a second customer is inserted.
\<close>

theorem returning_customer_is_reused_witness:
  "customers (fst (snd (handleSubmit example_env example_form (example_db, example_board))))
     = [example_customer]
   \<and> map (\<lambda>t. (t_id t, customer_id t))
        (trips (fst (snd (handleSubmit example_env example_form (example_db, example_board)))))
     = [(''trip1'', ''c1''), (''trip2'', ''c1''), (''trip3'', ''c1''), (''trip4'', ''c1''),
        (''trip5'', ''c1'')]
   \<and> customers (fst (snd (handleSubmit example_env
         (example_form\<lparr>phoneNumber := utf16 ''0799999999''\<rparr>) (example_db, example_board))))
     = [example_customer,
        \<lparr>c_id = ''c2'', c_full_name = utf16 ''W. Kamau'',
         c_phone_number = utf16 ''0799999999'',
         c_business_type = Some (utf16 ''Hardware''), c_created_at = 20, c_updated_at = 20\<rparr>]"
proof -
  let ?r = "handleSubmit example_env example_form (example_db, example_board)"
  let ?m2 = "example_form\<lparr>phoneNumber := utf16 ''0799999999''\<rparr>"
  let ?s = "handleSubmit example_env ?m2 (example_db, example_board)"
  have run: "?r = (fst ?r, fst (snd ?r), snd (snd ?r))" by simp
  have run2: "?s = (fst ?s, fst (snd ?s), snd (snd ?s))" by simp
  have found: "find (\<lambda>c. c_phone_number c = trim (phoneNumber example_form))
                 (customers example_db) = Some example_customer"
    by (simp add: trim_example_phone example_db_def example_customer_def)
  have ok: "canSubmit example_form \<and> \<not> nt_submitting example_form
      \<and> lookupError example_env = None \<and> pickup_iso example_env \<noteq> None
      \<and> tripError example_env = None"
    by (intro conjI canSubmit_example_form) (simp_all add: example_form_def example_env_def)
  note reused = returning_customer_is_reused [OF run, THEN conjunct1, THEN mp, OF found]
  from reused ok obtain row where row:
    "trips (fst (snd ?r)) = trips example_db @ [row]" "t_id row = new_trip_id example_env"
    "customer_id row = c_id example_customer"
    by auto
  have new: "map (\<lambda>t. (t_id t, customer_id t)) (trips (fst (snd ?r)))
     = [(''trip1'', ''c1''), (''trip2'', ''c1''), (''trip3'', ''c1''), (''trip4'', ''c1''),
        (''trip5'', ''c1'')]"
    unfolding row(1)
    by (simp add: row example_db_def example_trip_def example_env_def example_customer_def)
  have same: "customers (fst (snd ?r)) = [example_customer]"
    using reused by (simp add: example_db_def)
  have "length (customers (fst (snd ?s))) = 2"
    by (simp add: handleSubmit_def insert_new_trip_def insert_trip_def Let_def canSubmit_def
          trim_def is_space_def utf16_def example_form_def example_env_def example_db_def
          example_customer_def)
  then have changed: "customers (fst (snd ?s)) \<noteq> customers example_db"
    by (auto simp: example_db_def)
  note inserted = returning_customer_is_reused
    [OF run2, THEN conjunct2, THEN mp, OF changed, THEN conjunct2]
  have added: "customers (fst (snd ?s)) =
     [example_customer,
      \<lparr>c_id = ''c2'', c_full_name = utf16 ''W. Kamau'', c_phone_number = utf16 ''0799999999'',
       c_business_type = Some (utf16 ''Hardware''), c_created_at = 20, c_updated_at = 20\<rparr>]"
    using inserted
    by (simp add: trim_def is_space_def utf16_def example_form_def example_env_def
          example_db_def)
  from same new added show ?thesis by simp
qed


section \<open>Reconciliation: the statements of \<open>groupByDriver\<close>\<close>

lemma trip_key_Some_iff:
  "trip_key t = Some (k, drv) \<longleftrightarrow> driver_id t = Some k \<and> k \<noteq> [] \<and> driver t = Some drv"
  by (auto simp: trip_key_def split: option.splits)

lemma trip_key_ex_iff:
  "(\<exists>drv. trip_key t = Some (k, drv))
     \<longleftrightarrow> driver_id t = Some k \<and> k \<noteq> [] \<and> driver t \<noteq> None"
  by (auto simp: trip_key_def split: option.splits)

subsection \<open>The sort\<close>

lemma set_insert_sorted: "set (insert_sorted cmp x ys) = insert x (set ys)"
  by (induction ys) auto

lemma set_array_sort: "set (array_sort cmp xs) = set xs"
  by (induction xs) (simp_all add: array_sort_def set_insert_sorted)

lemma distinct_map_insert_sorted:
  "distinct (map h (insert_sorted cmp x ys)) = (h x \<notin> h ` set ys \<and> distinct (map h ys))"
  by (induction ys) (auto simp: set_insert_sorted)

lemma distinct_map_array_sort: "distinct (map h (array_sort cmp xs)) = distinct (map h xs)"
  by (induction xs) (simp_all add: array_sort_def distinct_map_insert_sorted set_insert_sorted
        set_array_sort [unfolded array_sort_def])

text \<open>
  With a comparator that follows a key, the sort is the stable sort by that key.
\<close>

lemma insert_sorted_insort_key:
  "\<forall>y \<in> set ys. (cmp x y \<le> 0) = (f x \<le> f y) \<Longrightarrow> insert_sorted cmp x ys = insort_key f x ys"
  by (induction ys) simp_all

lemma array_sort_sort_key:
  "\<forall>a \<in> set xs. \<forall>b \<in> set xs. (cmp a b \<le> 0) = (f a \<le> f b)
     \<Longrightarrow> array_sort cmp xs = sort_key f xs"
proof (induction xs)
  case Nil
  show ?case by (simp add: array_sort_def)
next
  case (Cons x xs)
  then have IH: "array_sort cmp xs = sort_key f xs" by simp
  have "insert_sorted cmp x (sort_key f xs) = insort_key f x (sort_key f xs)"
    using Cons.prems by (intro insert_sorted_insort_key) simp
  with IH show ?case by (simp add: array_sort_def)
qed

lemma array_sort_by_commission:
  assumes "sign_exact ar (map totalCommission xs)"
  shows "array_sort (by_commission ar) xs = sort_key (\<lambda>s. - totalCommission s) xs"
  using assms
  by (intro array_sort_sort_key) (simp add: sign_exact_def list_all_iff by_commission_def)

subsection \<open>The loop\<close>

lemma groupByDriver_loop_step:
  "groupByDriver_loop ar (trip # rest) m =
     groupByDriver_loop ar rest
       (case trip_key trip of
          None \<Rightarrow> m
        | Some (k, drv) \<Rightarrow>
            AList.update k
              (add_trip ar trip (case map_of m k of None \<Rightarrow> new_statement drv | Some s \<Rightarrow> s))
              m)"
  by (auto simp: Let_def update_conv' split: option.splits)

lemma fold_add_trip:
  "s_driver (fold (add_trip ar) g s) = s_driver s"
  "s_trips (fold (add_trip ar) g s) = s_trips s @ g"
  "totalFare (fold (add_trip ar) g s) = foldl (js_plus ar) (totalFare s) (map fare_or_zero g)"
  "totalCommission (fold (add_trip ar) g s) =
     foldl (js_plus ar) (totalCommission s) (map (commission_or_fallback ar) g)"
  by (induction g arbitrary: s) (simp_all add: add_trip_def)

text \<open>The statement that the loop holds for a key, after the trips \<open>ts\<close>.\<close>

lemma map_of_groupByDriver_loop:
  "map_of (groupByDriver_loop ar ts m) k =
     (case filter (\<lambda>t. map_option fst (trip_key t) = Some k) ts of
        [] \<Rightarrow> map_of m k
      | t # g \<Rightarrow>
          Some (fold (add_trip ar) (t # g)
                  (case map_of m k of
                     Some s \<Rightarrow> s
                   | None \<Rightarrow> new_statement (snd (the (trip_key t))))))"
proof (induction ts arbitrary: m)
  case Nil
  show ?case by simp
next
  case (Cons trip rest)
  show ?case
  proof (cases "trip_key trip")
    case None
    then show ?thesis
      unfolding groupByDriver_loop_step by (simp add: Cons.IH)
  next
    case (Some kd)
    obtain k' drv where kd: "kd = (k', drv)" by (cases kd)
    show ?thesis
      unfolding groupByDriver_loop_step
      by (simp add: Some kd Cons.IH update_conv' split: list.splits option.splits)
  qed
qed

lemma keys_groupByDriver_loop:
  "distinct (map fst m) \<Longrightarrow> distinct (map fst (groupByDriver_loop ar ts m))"
proof (induction ts arbitrary: m)
  case Nil
  then show ?case by simp
next
  case (Cons trip rest)
  show ?case
    unfolding groupByDriver_loop_step
    by (rule Cons.IH) (simp add: Cons.prems distinct_update split: option.splits prod.splits)
qed

lemma statement_in_groupByDriver_iff:
  "s \<in> set (groupByDriver ar ts) \<longleftrightarrow> (\<exists>k. map_of (groupByDriver_loop ar ts []) k = Some s)"
proof -
  have d: "distinct (map fst (groupByDriver_loop ar ts []))"
    by (rule keys_groupByDriver_loop) simp
  show ?thesis
    unfolding groupByDriver_def set_array_sort using d by (force simp: image_iff)
qed

lemma statement_of_key:
  assumes "map_of (groupByDriver_loop ar ts []) k = Some s"
  shows "k \<noteq> []"
    and "s_trips s = filter (\<lambda>t. driver_id t = Some k \<and> driver t \<noteq> None) ts"
    and "s_trips s \<noteq> []"
    and "driver (hd (s_trips s)) = Some (s_driver s)"
    and "totalFare s = foldl (js_plus ar) 0 (map fare_or_zero (s_trips s))"
    and "totalCommission s = foldl (js_plus ar) 0 (map (commission_or_fallback ar) (s_trips s))"
proof -
  let ?P = "\<lambda>t. map_option fst (trip_key t) = Some k"
  from assms obtain t g where tg: "filter ?P ts = t # g"
    and s: "s = fold (add_trip ar) (t # g) (new_statement (snd (the (trip_key t))))"
    by (auto simp: map_of_groupByDriver_loop split: list.splits)
  from tg have "t \<in> set (filter ?P ts)" by simp
  then have Pt: "?P t" by simp
  then obtain drv where key: "trip_key t = Some (k, drv)" by auto
  then have fields: "driver_id t = Some k" "k \<noteq> []" "driver t = Some drv"
    by (simp_all add: trip_key_Some_iff)
  show "k \<noteq> []" by (rule fields)
  have same: "filter (\<lambda>t. driver_id t = Some k \<and> driver t \<noteq> None) ts = filter ?P ts"
    using fields(2) by (intro filter_cong refl) (simp add: trip_key_ex_iff)
  have trips_s: "s_trips s = t # g"
    unfolding s fold_add_trip by (simp add: new_statement_def)
  show "s_trips s = filter (\<lambda>t. driver_id t = Some k \<and> driver t \<noteq> None) ts"
    by (simp only: same tg trips_s)
  show "s_trips s \<noteq> []" by (simp add: trips_s)
  have "s_driver s = drv"
    unfolding s fold_add_trip by (simp add: new_statement_def key)
  then show "driver (hd (s_trips s)) = Some (s_driver s)"
    by (simp add: trips_s fields)
  show "totalFare s = foldl (js_plus ar) 0 (map fare_or_zero (s_trips s))"
    unfolding trips_s unfolding s fold_add_trip by (simp add: new_statement_def)
  show "totalCommission s = foldl (js_plus ar) 0 (map (commission_or_fallback ar) (s_trips s))"
    unfolding trips_s unfolding s fold_add_trip by (simp add: new_statement_def)
qed

lemma trip_in_some_statement:
  assumes "t \<in> set ts" "driver_id t = Some k" "k \<noteq> []" "driver t \<noteq> None"
  shows "\<exists>s \<in> set (groupByDriver ar ts). t \<in> set (s_trips s)"
proof -
  let ?P = "\<lambda>t. map_option fst (trip_key t) = Some k"
  have "t \<in> set (filter ?P ts)" using assms by (simp add: trip_key_ex_iff)
  then have "filter ?P ts \<noteq> []" by (metis empty_iff empty_set)
  then obtain t0 g where tg: "filter ?P ts = t0 # g" by (auto simp only: neq_Nil_conv)
  then obtain s where s: "map_of (groupByDriver_loop ar ts []) k = Some s"
    by (simp add: map_of_groupByDriver_loop)
  from statement_of_key(2) [OF s] assms have "t \<in> set (s_trips s)" by simp
  moreover from s have "s \<in> set (groupByDriver ar ts)"
    unfolding statement_in_groupByDriver_iff by blast
  ultimately show ?thesis by blast
qed

lemma statement_trips_subset:
  assumes "s \<in> set (groupByDriver ar ts)" "t \<in> set (s_trips s)"
  shows "t \<in> set ts"
proof -
  from assms(1) obtain k where "map_of (groupByDriver_loop ar ts []) k = Some s"
    unfolding statement_in_groupByDriver_iff by blast
  from statement_of_key(2) [OF this] assms(2) show ?thesis by simp
qed

lemma one_statement_per_driver:
  "distinct (map (\<lambda>s. driver_id (hd (s_trips s))) (groupByDriver ar ts))"
proof -
  let ?L = "groupByDriver_loop ar ts []"
  let ?h = "\<lambda>s. driver_id (hd (s_trips s))"
  have d: "distinct (map fst ?L)" by (rule keys_groupByDriver_loop) simp
  have key: "?h (snd p) = Some (fst p)" if "p \<in> set ?L" for p
  proof -
    from that d have m: "map_of ?L (fst p) = Some (snd p)" by simp
    have "hd (s_trips (snd p)) \<in> set (s_trips (snd p))"
      using statement_of_key(3) [OF m] by simp
    then show ?thesis
      unfolding statement_of_key(2) [OF m] by simp
  qed
  then have eq: "map ?h (map snd ?L) = map Some (map fst ?L)" by simp
  have "distinct (map Some (map fst ?L))"
    by (rule iffD2 [OF distinct_map]) (auto simp: d inj_on_def)
  then have "distinct (map ?h (map snd ?L))" by (simp only: eq)
  then show ?thesis
    by (simp only: groupByDriver_def distinct_map_array_sort)
qed

lemma groupByDriver_sorted:
  assumes "sign_exact ar (map totalCommission (groupByDriver ar ts))"
  shows "sorted_wrt (\<lambda>a b. totalCommission a \<ge> totalCommission b) (groupByDriver ar ts)"
proof -
  let ?xs = "map snd (groupByDriver_loop ar ts [])"
  have eq: "set (groupByDriver ar ts) = set ?xs"
    by (simp only: groupByDriver_def set_array_sort)
  have "sign_exact ar (map totalCommission ?xs)"
    using assms unfolding sign_exact_def list_all_iff set_map [of totalCommission] eq .
  then have "groupByDriver ar ts = sort_key (\<lambda>s. - totalCommission s) ?xs"
    unfolding groupByDriver_def by (rule array_sort_by_commission)
  moreover have "sorted (map (\<lambda>s. - totalCommission s) (sort_key (\<lambda>s. - totalCommission s) ?xs))"
    by (rule sorted_sort_key)
  ultimately show ?thesis by (simp add: sorted_map)
qed

lemma groupByDriver_example:
  assumes "doubles_on_example ar"
  shows "map (\<lambda>s. (dr_id (s_driver s), map t_id (s_trips s), totalFare s, totalCommission s))
     (groupByDriver ar [example_unsettled ''trip1'' ''A'' 10000,
                        example_unsettled ''trip2'' ''A'' 5000,
                        example_unsettled ''trip3'' ''B'' 20000])
   = [(''B'', [''trip3''], 20000, 2400), (''A'', [''trip1'', ''trip2''], 15000, 1800)]"
  using assms
  by (simp add: doubles_on_example_def groupByDriver_def array_sort_def by_commission_def
        trip_key_def example_unsettled_def example_trip_def
        example_ref_def Trip.extend_def UnsettledTrip.fields_def Let_def new_statement_def
        add_trip_def fare_or_zero_def commission_or_fallback_def)

lemma example_arith_exact:
  "sign_exact example_arith xs"
  "doubles_on_example example_arith"
  by (simp_all add: sign_exact_def list_all_iff doubles_on_example_def example_arith_def)

text \<open>
  Claim C4, amended. \<open>groupByDriver\<close> skips the trips whose \<open>driver_id\<close> is null or empty
  and the trips without joined driver. Every statement is the group of one driver id:
  its trips are the kept trips of that driver in input order, its driver is the joined
  driver of the first of them, its \<open>totalFare\<close> is their fares (null as 0) added up from 0
  in that order with the client's addition, and its \<open>totalCommission\<close> their commissions
  added up in the same way, with the client's product of the fare (null as 0) by 0.12
  where the commission is null. Every kept trip is in a statement and no two statements
  are of the same driver. The statements are in descending order of \<open>totalCommission\<close>,
  the difference of two totals having the sign of their comparison, as it has for
  doubles. For the three trips of the example (A 10000, A 5000, B 20000, commissions
  null), on which the doubles compute exactly, the result is B (20000, 2400), then A
  (15000, 1800).
\<close>

theorem groupByDriver_statements:
  "(\<forall>s \<in> set (groupByDriver ar ts).
      \<exists>k. k \<noteq> []
        \<and> s_trips s = filter (\<lambda>t. driver_id t = Some k \<and> driver t \<noteq> None) ts
        \<and> s_trips s \<noteq> []
        \<and> driver (hd (s_trips s)) = Some (s_driver s)
        \<and> totalFare s =
            foldl (js_plus ar) 0
              (map (\<lambda>t. case agreed_fare t of Some f \<Rightarrow> f | None \<Rightarrow> 0) (s_trips s))
        \<and> totalCommission s =
            foldl (js_plus ar) 0
              (map (\<lambda>t. case platform_commission t of
                          Some c \<Rightarrow> c
                        | None \<Rightarrow> times_point12 ar
                                    (case agreed_fare t of Some f \<Rightarrow> f | None \<Rightarrow> 0))
                 (s_trips s)))
   \<and> (\<forall>t \<in> set ts. driver_id t \<noteq> None \<and> driver_id t \<noteq> Some [] \<and> driver t \<noteq> None
         \<longrightarrow> (\<exists>s \<in> set (groupByDriver ar ts). t \<in> set (s_trips s)))
   \<and> distinct (map (\<lambda>s. driver_id (hd (s_trips s))) (groupByDriver ar ts))
   \<and> (sign_exact ar (map totalCommission (groupByDriver ar ts))
         \<longrightarrow> sorted_wrt (\<lambda>a b. totalCommission a \<ge> totalCommission b) (groupByDriver ar ts))
   \<and> (doubles_on_example ar
         \<longrightarrow> map (\<lambda>s. (dr_id (s_driver s), map t_id (s_trips s), totalFare s, totalCommission s))
               (groupByDriver ar [example_unsettled ''trip1'' ''A'' 10000,
                                  example_unsettled ''trip2'' ''A'' 5000,
                                  example_unsettled ''trip3'' ''B'' 20000])
             = [(''B'', [''trip3''], 20000, 2400), (''A'', [''trip1'', ''trip2''], 15000, 1800)])"
proof (intro conjI ballI impI)
  fix s assume "s \<in> set (groupByDriver ar ts)"
  then obtain k where k: "map_of (groupByDriver_loop ar ts []) k = Some s"
    unfolding statement_in_groupByDriver_iff by blast
  note st = statement_of_key [OF k]
  have fare: "totalFare s =
      foldl (js_plus ar) 0
        (map (\<lambda>t. case agreed_fare t of Some f \<Rightarrow> f | None \<Rightarrow> 0) (s_trips s))"
    unfolding st(5) fare_or_zero_def [abs_def] by (rule refl)
  have comm: "totalCommission s =
      foldl (js_plus ar) 0
        (map (\<lambda>t. case platform_commission t of
                    Some c \<Rightarrow> c
                  | None \<Rightarrow> times_point12 ar (case agreed_fare t of Some f \<Rightarrow> f | None \<Rightarrow> 0))
           (s_trips s))"
    unfolding st(6) commission_or_fallback_def [abs_def] fare_or_zero_def by (rule refl)
  from st(1-4) fare comm
  show "\<exists>k. k \<noteq> []
        \<and> s_trips s = filter (\<lambda>t. driver_id t = Some k \<and> driver t \<noteq> None) ts
        \<and> s_trips s \<noteq> []
        \<and> driver (hd (s_trips s)) = Some (s_driver s)
        \<and> totalFare s =
            foldl (js_plus ar) 0
              (map (\<lambda>t. case agreed_fare t of Some f \<Rightarrow> f | None \<Rightarrow> 0) (s_trips s))
        \<and> totalCommission s =
            foldl (js_plus ar) 0
              (map (\<lambda>t. case platform_commission t of
                          Some c \<Rightarrow> c
                        | None \<Rightarrow> times_point12 ar
                                    (case agreed_fare t of Some f \<Rightarrow> f | None \<Rightarrow> 0))
                 (s_trips s))"
    by blast
next
  fix t assume "t \<in> set ts"
    and "driver_id t \<noteq> None \<and> driver_id t \<noteq> Some [] \<and> driver t \<noteq> None"
  then show "\<exists>s \<in> set (groupByDriver ar ts). t \<in> set (s_trips s)"
    by (cases "driver_id t") (auto intro: trip_in_some_statement)
next
  show "distinct (map (\<lambda>s. driver_id (hd (s_trips s))) (groupByDriver ar ts))"
    by (rule one_statement_per_driver)
next
  assume "sign_exact ar (map totalCommission (groupByDriver ar ts))"
  then show "sorted_wrt (\<lambda>a b. totalCommission a \<ge> totalCommission b) (groupByDriver ar ts)"
    by (rule groupByDriver_sorted)
next
  assume "doubles_on_example ar"
  then show "map (\<lambda>s. (dr_id (s_driver s), map t_id (s_trips s), totalFare s, totalCommission s))
        (groupByDriver ar [example_unsettled ''trip1'' ''A'' 10000,
                           example_unsettled ''trip2'' ''A'' 5000,
                           example_unsettled ''trip3'' ''B'' 20000])
      = [(''B'', [''trip3''], 20000, 2400), (''A'', [''trip1'', ''trip2''], 15000, 1800)]"
    by (rule groupByDriver_example)
qed

text \<open>
  The example of the specification: B before A, with the totals of the claim; the trip
  of driver B is in a statement, the first statement is the group of one driver, and
  the statements are in descending order.
\<close>

theorem groupByDriver_statements_witness:
  "map (\<lambda>s. (dr_id (s_driver s), map t_id (s_trips s), totalFare s, totalCommission s))
     (groupByDriver example_arith [example_unsettled ''trip1'' ''A'' 10000,
                                   example_unsettled ''trip2'' ''A'' 5000,
                                   example_unsettled ''trip3'' ''B'' 20000])
     = [(''B'', [''trip3''], 20000, 2400), (''A'', [''trip1'', ''trip2''], 15000, 1800)]
   \<and> sorted_wrt (\<lambda>a b. totalCommission a \<ge> totalCommission b)
        (groupByDriver example_arith [example_unsettled ''trip1'' ''A'' 10000,
                                      example_unsettled ''trip2'' ''A'' 5000,
                                      example_unsettled ''trip3'' ''B'' 20000])
   \<and> (\<exists>s \<in> set (groupByDriver example_arith [example_unsettled ''trip1'' ''A'' 10000,
                                             example_unsettled ''trip2'' ''A'' 5000,
                                             example_unsettled ''trip3'' ''B'' 20000]).
        example_unsettled ''trip3'' ''B'' 20000 \<in> set (s_trips s))
   \<and> (\<exists>k. k \<noteq> []
         \<and> s_trips (hd (groupByDriver example_arith
                           [example_unsettled ''trip1'' ''A'' 10000,
                            example_unsettled ''trip2'' ''A'' 5000,
                            example_unsettled ''trip3'' ''B'' 20000]))
             = filter (\<lambda>t. driver_id t = Some k \<and> driver t \<noteq> None)
                 [example_unsettled ''trip1'' ''A'' 10000,
                  example_unsettled ''trip2'' ''A'' 5000,
                  example_unsettled ''trip3'' ''B'' 20000])"
proof -
  let ?ts = "[example_unsettled ''trip1'' ''A'' 10000, example_unsettled ''trip2'' ''A'' 5000,
              example_unsettled ''trip3'' ''B'' 20000]"
  let ?t = "example_unsettled ''trip3'' ''B'' 20000"
  let ?R = "groupByDriver example_arith ?ts"
  note all = groupByDriver_statements [of example_arith ?ts]
  have mem: "?t \<in> set ?ts" by simp
  have kept: "driver_id ?t \<noteq> None \<and> driver_id ?t \<noteq> Some [] \<and> driver ?t \<noteq> None"
    by (simp add: example_unsettled_def example_trip_def Trip.extend_def
          UnsettledTrip.fields_def)
  note covered = all [THEN conjunct2, THEN conjunct1, THEN bspec, OF mem, THEN mp, OF kept]
  note ordered = all [THEN conjunct2, THEN conjunct2, THEN conjunct2, THEN conjunct1, THEN mp,
      OF example_arith_exact(1)]
  note example = all [THEN conjunct2, THEN conjunct2, THEN conjunct2, THEN conjunct2, THEN mp,
      OF example_arith_exact(2)]
  have "length ?R = 2"
    using arg_cong [OF example, of length] by simp
  then have "hd ?R \<in> set ?R"
    by (cases ?R) simp_all
  from all [THEN conjunct1, THEN bspec, OF this]
  have "\<exists>k. k \<noteq> []
         \<and> s_trips (hd ?R) = filter (\<lambda>t. driver_id t = Some k \<and> driver t \<noteq> None) ?ts"
    by blast
  with covered ordered example show ?thesis by blast
qed

text \<open>
  The claim as it was stated excludes only the trips with a null \<open>driver_id\<close>. A trip of
  driver A without joined driver is in no statement, and its fare is in no total.
\<close>

theorem groupByDriver_skips_unjoined_trip:
  "driver_id example_unjoined = Some ''A''
   \<and> agreed_fare example_unjoined = Some 10000
   \<and> groupByDriver example_arith [example_unjoined] = []
   \<and> map (\<lambda>s. (map t_id (s_trips s), totalFare s))
        (groupByDriver example_arith
           [example_unjoined, example_unsettled ''trip1'' ''A'' 10000])
      = [([''trip1''], 10000)]"
  by (simp add: groupByDriver_def array_sort_def by_commission_def example_arith_def
        trip_key_def example_unjoined_def example_unsettled_def
        example_trip_def example_ref_def Trip.extend_def UnsettledTrip.fields_def Let_def
        new_statement_def add_trip_def fare_or_zero_def commission_or_fallback_def)


section \<open>Settlement\<close>

lemma settle_row:
  "update_row (no_patch\<lparr>set_commission_settled := Some True\<rparr>) t
     = (t\<lparr>commission_settled := True\<rparr>, [])"
  by (simp add: update_row_def row_written_def after_update_def assign_columns_def no_patch_def)

lemma settle_update:
  "update_trips (no_patch\<lparr>set_commission_settled := Some True\<rparr>) sel db =
     db\<lparr>trips := map (\<lambda>t. if sel t then t\<lparr>commission_settled := True\<rparr> else t) (trips db)\<rparr>"
  by (simp add: update_trips_def settle_row)

lemma in_select_unsettled:
  "u \<in> set (select_unsettled db) \<longleftrightarrow>
     (\<exists>t \<in> set (trips db). status t = Completed \<and> \<not> commission_settled t
        \<and> u = Trip.extend t (UnsettledTrip.fields (join_driver db t)))"
  by (auto simp: select_unsettled_def)

lemma extend_fields:
  "t_id (Trip.extend t (UnsettledTrip.fields d)) = t_id t"
  "driver_id (Trip.extend t (UnsettledTrip.fields d)) = driver_id t"
  "driver (Trip.extend t (UnsettledTrip.fields d)) = d"
  "Trip.truncate (Trip.extend t (UnsettledTrip.fields d)) = t"
  by (simp_all add: Trip.extend_def UnsettledTrip.fields_def Trip.truncate_def)

lemma join_driver_settled:
  "join_driver (db\<lparr>trips := ts\<rparr>) (t\<lparr>commission_settled := b\<rparr>) = join_driver db t"
  "join_driver (db\<lparr>trips := ts\<rparr>) t = join_driver db t"
  by (simp_all add: join_driver_def split: option.splits)

text \<open>
  Claim C6. A settle that the store applies sets \<open>commission_settled\<close> on the trips whose
  ids are in the list and changes nothing else: every other trip, the other tables and
  the audit log are as they were. No trip of the list is in a statement built afterwards.
  A Completed, unsettled trip that is not in the list, with a driver, is still in the
  store as it was and is in a statement built afterwards.
\<close>

theorem settle_marks_listed_trips_only:
  assumes "handleSettle None driverId tripIds (db, page) = (err, db', page')"
  shows "err = None
     \<and> trips db' = map (\<lambda>t. if t_id t \<in> set tripIds then t\<lparr>commission_settled := True\<rparr> else t)
                      (trips db)
     \<and> customers db' = customers db \<and> drivers db' = drivers db
     \<and> audit_logs db' = audit_logs db
     \<and> (\<forall>s \<in> set (groupByDriver ar (select_unsettled db')).
           \<forall>t \<in> set (s_trips s). t_id t \<notin> set tripIds)
     \<and> (\<forall>t \<in> set (trips db).
           t_id t \<notin> set tripIds \<and> status t = Completed \<and> \<not> commission_settled t
           \<and> driver_id t \<noteq> Some [] \<and> join_driver db t \<noteq> None
           \<longrightarrow> t \<in> set (trips db')
               \<and> (\<exists>s \<in> set (groupByDriver ar (select_unsettled db')).
                     \<exists>u \<in> set (s_trips s). Trip.truncate u = t))
     \<and> statements page' = filter (\<lambda>s. dr_id (s_driver s) \<noteq> driverId) (statements page)"
proof -
  let ?f = "\<lambda>t. if t_id t \<in> set tripIds then t\<lparr>commission_settled := True\<rparr> else t"
  from assms have err: "err = None" and db': "db' = db\<lparr>trips := map ?f (trips db)\<rparr>"
    and page': "page' = page\<lparr>statements := filter (\<lambda>s. dr_id (s_driver s) \<noteq> driverId)
                                  (statements page),
                           toast := Some ''Balance settled successfully''\<rparr>"
    by (simp_all add: handleSettle_def settle_update)
  have excluded: "t_id u \<notin> set tripIds" if "u \<in> set (select_unsettled db')" for u
    using that unfolding in_select_unsettled db'
    by (auto simp: extend_fields split: if_splits)
  have part1: "\<forall>s \<in> set (groupByDriver ar (select_unsettled db')).
           \<forall>t \<in> set (s_trips s). t_id t \<notin> set tripIds"
    using excluded statement_trips_subset by blast
  have part2: "t \<in> set (trips db')
               \<and> (\<exists>s \<in> set (groupByDriver ar (select_unsettled db')).
                     \<exists>u \<in> set (s_trips s). Trip.truncate u = t)"
    if t: "t \<in> set (trips db)" and c: "t_id t \<notin> set tripIds \<and> status t = Completed
      \<and> \<not> commission_settled t \<and> driver_id t \<noteq> Some [] \<and> join_driver db t \<noteq> None" for t
  proof
    have "?f t = t" using c by simp
    with t show in': "t \<in> set (trips db')" unfolding db' by force
    let ?u = "Trip.extend t (UnsettledTrip.fields (join_driver db t))"
    have j: "join_driver db' t = join_driver db t" by (simp add: db' join_driver_settled)
    have sel: "?u \<in> set (select_unsettled db')"
      unfolding in_select_unsettled using in' c j by auto
    from c obtain k where k: "driver_id t = Some k" "k \<noteq> []"
      by (cases "driver_id t") (auto simp: join_driver_def)
    have "\<exists>s \<in> set (groupByDriver ar (select_unsettled db')). ?u \<in> set (s_trips s)"
      using sel k c by (intro trip_in_some_statement [where k = k]) (simp_all add: extend_fields)
    then show "\<exists>s \<in> set (groupByDriver ar (select_unsettled db')).
                 \<exists>u \<in> set (s_trips s). Trip.truncate u = t"
      using extend_fields(4) by blast
  qed
  show ?thesis
    using err part1 part2 by (simp add: db' page')
qed


lemma example_statements:
  "map (\<lambda>s. (dr_id (s_driver s), map t_id (s_trips s), totalFare s, totalCommission s))
     (statements example_page)
   = [(''B'', [''trip3''], 20000, 2400), (''A'', [''trip1'', ''trip2''], 15000, 1800)]"
  by (simp add: example_page_def fetchData_def select_unsettled_def example_db_def
        example_trip_def example_driver_def join_driver_def deriveCommission_def
        groupByDriver_def array_sort_def by_commission_def example_arith_def
        trip_key_def Trip.extend_def UnsettledTrip.fields_def Let_def
        new_statement_def add_trip_def fare_or_zero_def commission_or_fallback_def)

text \<open>
  The statement of driver A was built from \<open>trip1\<close> and \<open>trip2\<close>; \<open>trip6\<close> of the same
  driver was completed afterwards. Settling the statement leaves \<open>trip6\<close> unsettled, and
  the next build has it.
\<close>

theorem settle_marks_listed_trips_only_witness:
  "map (\<lambda>t. (t_id t, commission_settled t))
     (trips (fst (snd (handleSettle None ''A'' [''trip1'', ''trip2'']
                         (example_db_later, example_page)))))
   = [(''trip1'', True), (''trip2'', True), (''trip3'', False), (''trip4'', False),
      (''trip6'', False)]
   \<and> (\<exists>s \<in> set (groupByDriver example_arith (select_unsettled
           (fst (snd (handleSettle None ''A'' [''trip1'', ''trip2'']
                        (example_db_later, example_page)))))).
        \<exists>u \<in> set (s_trips s).
          Trip.truncate u = example_trip ''trip6'' (Some ''A'') (Some 7000) Completed)
   \<and> list_all (\<lambda>s. list_all (\<lambda>t. t_id t \<notin> set [''trip1'', ''trip2'']) (s_trips s))
        (groupByDriver example_arith (select_unsettled
           (fst (snd (handleSettle None ''A'' [''trip1'', ''trip2'']
                        (example_db_later, example_page))))))"
proof -
  let ?r = "handleSettle None ''A'' [''trip1'', ''trip2''] (example_db_later, example_page)"
  let ?t6 = "example_trip ''trip6'' (Some ''A'') (Some 7000) Completed"
  have run: "?r = (fst ?r, fst (snd ?r), snd (snd ?r))" by simp
  note settled = settle_marks_listed_trips_only [OF run, where ar = example_arith]
  have mem: "?t6 \<in> set (trips example_db_later)" by (simp add: example_db_later_def)
  have later: "t_id ?t6 \<notin> set [''trip1'', ''trip2''] \<and> status ?t6 = Completed
      \<and> \<not> commission_settled ?t6 \<and> driver_id ?t6 \<noteq> Some []
      \<and> join_driver example_db_later ?t6 \<noteq> None"
    by (simp add: example_trip_def join_driver_def example_db_later_def example_db_def
          example_driver_def)
  from settled have rows: "trips (fst (snd ?r)) =
      map (\<lambda>t. if t_id t \<in> set [''trip1'', ''trip2''] then t\<lparr>commission_settled := True\<rparr> else t)
        (trips example_db_later)"
    by blast
  have a: "map (\<lambda>t. (t_id t, commission_settled t)) (trips (fst (snd ?r)))
      = [(''trip1'', True), (''trip2'', True), (''trip3'', False), (''trip4'', False),
         (''trip6'', False)]"
    unfolding rows by (simp add: example_db_later_def example_db_def example_trip_def)
  from settled have "\<forall>t \<in> set (trips example_db_later).
           t_id t \<notin> set [''trip1'', ''trip2''] \<and> status t = Completed \<and> \<not> commission_settled t
           \<and> driver_id t \<noteq> Some [] \<and> join_driver example_db_later t \<noteq> None
           \<longrightarrow> t \<in> set (trips (fst (snd ?r)))
               \<and> (\<exists>s \<in> set (groupByDriver example_arith (select_unsettled (fst (snd ?r)))).
                     \<exists>u \<in> set (s_trips s). Trip.truncate u = t)"
    by blast
  from this [THEN bspec, OF mem, THEN mp, OF later]
  have b: "\<exists>s \<in> set (groupByDriver example_arith (select_unsettled (fst (snd ?r)))).
             \<exists>u \<in> set (s_trips s). Trip.truncate u = ?t6"
    by blast
  from settled have c: "list_all (\<lambda>s. list_all (\<lambda>t. t_id t \<notin> set [''trip1'', ''trip2'']) (s_trips s))
        (groupByDriver example_arith (select_unsettled (fst (snd ?r))))"
    unfolding list_all_iff by blast
  from a b c show ?thesis by blast
qed

text \<open>
  Claim C7. Settling the same trips a second time gives the state of the first time,
  store and page, and raises no error.
\<close>

theorem settle_twice_is_settle_once:
  "handleSettle None driverId tripIds (snd (handleSettle None driverId tripIds w))
     = handleSettle None driverId tripIds w
   \<and> fst (handleSettle None driverId tripIds (snd (handleSettle None driverId tripIds w))) = None"
proof -
  obtain db page where w: "w = (db, page)" by (cases w)
  let ?f = "\<lambda>t. if t_id t \<in> set tripIds then t\<lparr>commission_settled := True\<rparr> else t"
  have "map ?f (map ?f ts) = map ?f ts" for ts :: "Trip list"
    by (induction ts) simp_all
  then show ?thesis
    by (simp add: w handleSettle_def settle_update)
qed

text \<open>
  Claim C8. When the store answers the settle with an error, the database is as it
  was (the settle is one UPDATE statement, and a failed statement writes nothing), the
  statements of the page are as they were, the page shows the error message, and the
  error is thrown to the caller.
\<close>

theorem failed_settle_changes_nothing:
  "handleSettle (Some msg) driverId tripIds (db, page)
     = (Some (Error msg), db,
        page\<lparr>toast := Some ''Error settling balance. Please try again.''\<rparr>)
   \<and> trips (fst (snd (handleSettle (Some msg) driverId tripIds (db, page)))) = trips db
   \<and> statements (snd (snd (handleSettle (Some msg) driverId tripIds (db, page))))
       = statements page
   \<and> toast (snd (snd (handleSettle (Some msg) driverId tripIds (db, page))))
       = Some ''Error settling balance. Please try again.''
   \<and> DriverCard_handleSettle (Some msg) statement (db, page)
       = (Some (Error msg), db,
          page\<lparr>toast := Some ''Error settling balance. Please try again.''\<rparr>)"
  by (simp add: handleSettle_def DriverCard_handleSettle_def)


section \<open>Assigning a driver\<close>

lemma assign_row:
  "row_written (no_patch\<lparr>set_driver_id := Some (Some d), set_agreed_fare := Some (Some fare),
                         set_status := Some Confirmed\<rparr>) t
   = t\<lparr>driver_id := Some d, agreed_fare := Some fare,
       platform_commission := Some (fare * (12 / 100)), status := Confirmed\<rparr>"
  by (simp add: row_written_def assign_columns_def no_patch_def calculate_trip_commission_def)

lemma update_trips_frame:
  "customers (update_trips p sel db) = customers db"
  "drivers (update_trips p sel db) = drivers db"
  by (simp_all add: update_trips_def)

text \<open>
  Claim C5. The assignment does nothing (store and board as they were) when no driver is
  selected, when the fare is not a number, and when the fare is not above zero. With a
  driver selected and a fare above zero, and the store applying the write, it is one
  UPDATE statement on the selected trip: status Confirmed, the driver, the fare, and in
  the same statement the commission of 12 percent of the fare, computed by the trigger;
  no other row changes. The board shows the same status, driver and fare, and as
  commission the client's own product of the fare by 0.12.
\<close>

theorem assign_driver_sets_fare_and_commission:
  "(selectedDriver modal = None \<or> parsedFare modal = NaN
      \<or> (\<exists>f. parsedFare modal = Num f \<and> f \<le> 0)
     \<longrightarrow> handleConfirm ar fault now modal w = (modal, w))
   \<and> (selectedDriver modal = Some drv \<and> parsedFare modal = Num fare \<and> fare > 0
        \<and> selectedTrip page = Some sel
        \<and> handleConfirm ar None now modal (db, page) = (modal', db', page')
     \<longrightarrow> db' = update_trips
                 (no_patch\<lparr>set_driver_id := Some (Some (d_id drv)),
                           set_agreed_fare := Some (Some fare),
                           set_status := Some Confirmed\<rparr>)
                 (\<lambda>t. t_id t = t_id sel) db
         \<and> trips db' =
              map (\<lambda>t. if t_id t = t_id sel
                        then t\<lparr>driver_id := Some (d_id drv), agreed_fare := Some fare,
                               platform_commission := Some (fare * (12 / 100)),
                               status := Confirmed\<rparr>
                        else t)
                (trips db)
         \<and> customers db' = customers db \<and> drivers db' = drivers db
         \<and> dash_trips page' =
              map (\<lambda>t. if t_id t = t_id sel
                        then t\<lparr>status := Confirmed, driver_id := Some (d_id drv),
                               driver_rel := Some (Driver.truncate drv),
                               agreed_fare := Some fare,
                               platform_commission := Some (times_point12 ar fare),
                               updated_at := now\<rparr>
                        else t)
                (dash_trips page)
         \<and> selectedTrip page' = None \<and> submitError modal' = None)"
proof (intro conjI impI)
  assume "selectedDriver modal = None \<or> parsedFare modal = NaN
      \<or> (\<exists>f. parsedFare modal = Num f \<and> f \<le> 0)"
  then show "handleConfirm ar fault now modal w = (modal, w)"
    by (auto simp: handleConfirm_def canConfirm_def split: option.splits jsnumber.splits)
next
  assume a: "selectedDriver modal = Some drv \<and> parsedFare modal = Num fare \<and> fare > 0
        \<and> selectedTrip page = Some sel
        \<and> handleConfirm ar None now modal (db, page) = (modal', db', page')"
  let ?p = "no_patch\<lparr>set_driver_id := Some (Some (d_id drv)),
                      set_agreed_fare := Some (Some fare), set_status := Some Confirmed\<rparr>"
  from a have run: "handleConfirm ar None now modal (db, page) =
      (modal\<lparr>submitting := True, submitError := None\<rparr>,
       update_trips ?p (\<lambda>t. t_id t = t_id sel) db,
       page\<lparr>dash_trips :=
              map (\<lambda>t. if t_id t = t_id sel
                        then t\<lparr>status := Confirmed, driver_id := Some (d_id drv),
                               driver_rel := Some (Driver.truncate drv),
                               agreed_fare := Some fare,
                               platform_commission := Some (times_point12 ar fare),
                               updated_at := now\<rparr>
                        else t)
                (dash_trips page),
            selectedTrip := None\<rparr>)"
    by (simp add: handleConfirm_def canConfirm_def handleConfirmAssignment_def)
  with a have m: "modal' = modal\<lparr>submitting := True, submitError := None\<rparr>"
    and d: "db' = update_trips ?p (\<lambda>t. t_id t = t_id sel) db"
    and p: "page' = page\<lparr>dash_trips :=
              map (\<lambda>t. if t_id t = t_id sel
                        then t\<lparr>status := Confirmed, driver_id := Some (d_id drv),
                               driver_rel := Some (Driver.truncate drv),
                               agreed_fare := Some fare,
                               platform_commission := Some (times_point12 ar fare),
                               updated_at := now\<rparr>
                        else t)
                (dash_trips page),
            selectedTrip := None\<rparr>"
    by simp_all
  show "db' = update_trips ?p (\<lambda>t. t_id t = t_id sel) db" by (rule d)
  show "trips db' =
              map (\<lambda>t. if t_id t = t_id sel
                        then t\<lparr>driver_id := Some (d_id drv), agreed_fare := Some fare,
                               platform_commission := Some (fare * (12 / 100)),
                               status := Confirmed\<rparr>
                        else t)
                (trips db)"
    unfolding d trips_update_trips assign_row by (rule refl)
  show "customers db' = customers db" "drivers db' = drivers db"
    unfolding d by (rule update_trips_frame)+
  show "dash_trips page' =
              map (\<lambda>t. if t_id t = t_id sel
                        then t\<lparr>status := Confirmed, driver_id := Some (d_id drv),
                               driver_rel := Some (Driver.truncate drv),
                               agreed_fare := Some fare,
                               platform_commission := Some (times_point12 ar fare),
                               updated_at := now\<rparr>
                        else t)
                (dash_trips page)"
    unfolding p by simp
  show "selectedTrip page' = None" unfolding p by simp
  show "submitError modal' = None" unfolding m by simp
qed


text \<open>
  In the example, a fare of 0 is refused and nothing changes; driver B with a fare of
  8000 makes \<open>trip4\<close> Confirmed with a commission of 960.
\<close>

theorem assign_driver_sets_fare_and_commission_witness:
  "handleConfirm example_arith None 30 (example_modal\<lparr>parsedFare := Num 0\<rparr>) (example_db, example_selection)
     = (example_modal\<lparr>parsedFare := Num 0\<rparr>, example_db, example_selection)
   \<and> map (\<lambda>t. (t_id t, status t, driver_id t, agreed_fare t, platform_commission t))
        (trips (fst (snd (handleConfirm example_arith None 30 example_modal (example_db, example_selection)))))
      = [(''trip1'', Completed, Some ''A'', Some 10000, Some 1200),
         (''trip2'', Completed, Some ''A'', Some 5000, Some 600),
         (''trip3'', Completed, Some ''B'', Some 20000, Some 2400),
         (''trip4'', Confirmed, Some ''B'', Some 8000, Some 960)]"
proof -
  let ?r = "handleConfirm example_arith None 30 example_modal (example_db, example_selection)"
  let ?sel = "example_card (example_trip ''trip4'' None None Pending)"
  let ?drv = "example_available ''B'' ''Baraka''"
  have zero: "selectedDriver (example_modal\<lparr>parsedFare := Num 0\<rparr>) = None
      \<or> parsedFare (example_modal\<lparr>parsedFare := Num 0\<rparr>) = NaN
      \<or> (\<exists>f. parsedFare (example_modal\<lparr>parsedFare := Num 0\<rparr>) = Num f \<and> f \<le> 0)"
    by simp
  note refused = assign_driver_sets_fare_and_commission
    [where modal = "example_modal\<lparr>parsedFare := Num 0\<rparr>" and fault = None and now = 30
       and ar = example_arith
       and w = "(example_db, example_selection)", THEN conjunct1, THEN mp, OF zero]
  have ok: "selectedDriver example_modal = Some ?drv \<and> parsedFare example_modal = Num 8000
      \<and> (8000::rat) > 0 \<and> selectedTrip example_selection = Some ?sel
      \<and> ?r = (fst ?r, fst (snd ?r), snd (snd ?r))"
    by (simp add: selectedDriver_def example_modal_def example_selection_def
          example_available_def example_driver_def Driver.extend_def)
  note assigned = assign_driver_sets_fare_and_commission
    [where modal = example_modal and drv = ?drv and fare = 8000 and page = example_selection
       and ar = example_arith
       and sel = ?sel and now = 30 and db = example_db and modal' = "fst ?r"
       and db' = "fst (snd ?r)" and page' = "snd (snd ?r)", THEN conjunct2, THEN mp, OF ok]
  from assigned have rows: "trips (fst (snd ?r)) =
      map (\<lambda>t. if t_id t = t_id ?sel
                then t\<lparr>driver_id := Some (d_id ?drv), agreed_fare := Some 8000,
                       platform_commission := Some (8000 * (12 / 100)), status := Confirmed\<rparr>
                else t)
        (trips example_db)"
    by blast
  have "map (\<lambda>t. (t_id t, status t, driver_id t, agreed_fare t, platform_commission t))
        (trips (fst (snd ?r)))
      = [(''trip1'', Completed, Some ''A'', Some 10000, Some 1200),
         (''trip2'', Completed, Some ''A'', Some 5000, Some 600),
         (''trip3'', Completed, Some ''B'', Some 20000, Some 2400),
         (''trip4'', Confirmed, Some ''B'', Some 8000, Some 960)]"
    unfolding rows
    by (simp add: example_db_def example_trip_def example_card_def example_available_def
          example_driver_def Driver.extend_def Trip.extend_def deriveCommission_def)
  with refused show ?thesis by blast
qed

section \<open>Advancing the status\<close>

lemma successor_simps:
  "successor Pending = Some Confirmed"
  "successor Confirmed = Some InProgress"
  "successor InProgress = Some Completed"
  "successor Completed = None"
  by (simp_all add: successor_def STATUSES_def)

lemma advance_row:
  "row_written (no_patch\<lparr>set_status := Some n\<rparr>) t = t\<lparr>status := n\<rparr>"
  by (simp add: row_written_def assign_columns_def no_patch_def)

text \<open>
  Claim C1, amended. \<open>handleAdvanceStatus\<close> takes a trip and no target status. For a
  trip that the board holds as Pending or Completed it does nothing: no write, store
  and board as they were, and it returns without an error. For a trip held as Confirmed
  or In Progress the configured next status is the one-step successor; when the store
  applies the write, the rows with the id of the trip get that status, and when the
  store answers with an error, that error is thrown and nothing changes. In every case
  a row of the store is either as it was or has the id of the trip and the successor
  of the status that the board holds for it. The cards of the Pending and Completed
  columns have no advance action at all.
\<close>

theorem advance_is_one_step_or_nothing:
  assumes "handleAdvanceStatus fault now trip (db, page) = (err, db', page')"
  shows "(status trip = Pending \<or> status trip = Completed
            \<longrightarrow> err = None \<and> db' = db \<and> page' = page)
     \<and> (\<forall>cfg. ADVANCE_CONFIG (status trip) = Some cfg
            \<longrightarrow> successor (status trip) = Some (cfg_next cfg))
     \<and> length (trips db') = length (trips db)
     \<and> (\<forall>i < length (trips db).
           trips db' ! i = trips db ! i
           \<or> (t_id (trips db ! i) = t_id trip
               \<and> (\<exists>n. successor (status trip) = Some n
                     \<and> trips db' ! i = (trips db ! i)\<lparr>status := n\<rparr>)))
     \<and> (fault = None \<and> (status trip = Confirmed \<or> status trip = InProgress)
            \<longrightarrow> err = None
                \<and> (\<forall>i < length (trips db). t_id (trips db ! i) = t_id trip
                      \<longrightarrow> successor (status trip) = Some (status (trips db' ! i))))
     \<and> (fault \<noteq> None \<and> (status trip = Confirmed \<or> status trip = InProgress)
            \<longrightarrow> err = map_option Error fault \<and> db' = db \<and> page' = page)
     \<and> (column = Pending \<or> column = Completed
            \<longrightarrow> TripCard_handleAdvance fault now column trip (db, page) = (None, db, page))"
  using assms
  by (cases "status trip"; cases fault)
     (auto simp: handleAdvanceStatus_def successor_simps trips_update_trips advance_row
        TripCard_handleAdvance_def split: if_splits)


text \<open>
  A Confirmed trip is advanced to In Progress; the advance of a Completed trip changes
  nothing.
\<close>

theorem advance_is_one_step_or_nothing_witness:
  "length (trips (fst (snd (handleAdvanceStatus None 30
       (example_card (example_trip ''trip7'' (Some ''B'') (Some 3000) Confirmed))
       (example_db_confirmed, example_selection))))) = 1
   \<and> status (trips (fst (snd (handleAdvanceStatus None 30
       (example_card (example_trip ''trip7'' (Some ''B'') (Some 3000) Confirmed))
       (example_db_confirmed, example_selection)))) ! 0) = InProgress
   \<and> fst (snd (handleAdvanceStatus None 30
       (example_card (example_trip ''trip3'' (Some ''B'') (Some 20000) Completed))
       (example_db, example_selection))) = example_db"
proof -
  let ?c7 = "example_card (example_trip ''trip7'' (Some ''B'') (Some 3000) Confirmed)"
  let ?c3 = "example_card (example_trip ''trip3'' (Some ''B'') (Some 20000) Completed)"
  let ?r = "handleAdvanceStatus None 30 ?c7 (example_db_confirmed, example_selection)"
  let ?q = "handleAdvanceStatus None 30 ?c3 (example_db, example_selection)"
  have run: "?r = (fst ?r, fst (snd ?r), snd (snd ?r))" by simp
  have run3: "?q = (fst ?q, fst (snd ?q), snd (snd ?q))" by simp
  have st7: "status ?c7 = Confirmed" and id7: "t_id ?c7 = ''trip7''"
    and st3: "status ?c3 = Completed"
    by (simp_all add: example_card_def example_trip_def Trip.extend_def)
  have len: "length (trips example_db_confirmed) = 1"
    and row: "t_id (trips example_db_confirmed ! 0) = ''trip7''"
    by (simp_all add: example_db_confirmed_def example_trip_def)
  note adv = advance_is_one_step_or_nothing [OF run]
  from adv len have a: "length (trips (fst (snd ?r))) = 1" by simp
  from adv st7 have "\<forall>i < length (trips example_db_confirmed).
      t_id (trips example_db_confirmed ! i) = t_id ?c7
        \<longrightarrow> successor (status ?c7) = Some (status (trips (fst (snd ?r)) ! i))"
    by blast
  with len row id7 st7 have b: "status (trips (fst (snd ?r)) ! 0) = InProgress"
    by (simp add: successor_simps)
  from advance_is_one_step_or_nothing [OF run3] st3
  have c: "fst (snd ?q) = example_db" by blast
  from a b c show ?thesis by blast
qed

text \<open>
  The claim as it was stated has the advance of a Completed or a Pending trip rejected
  with a TransitionError. The handler returns without throwing anything.
\<close>

theorem advance_without_next_status_raises_nothing:
  "status (example_card (example_trip ''trip3'' (Some ''B'') (Some 20000) Completed)) = Completed
   \<and> handleAdvanceStatus None 30
        (example_card (example_trip ''trip3'' (Some ''B'') (Some 20000) Completed))
        (example_db, example_selection)
      = (None, example_db, example_selection)
   \<and> status (example_card (example_trip ''trip4'' None None Pending)) = Pending
   \<and> handleAdvanceStatus None 30
        (example_card (example_trip ''trip4'' None None Pending))
        (example_db, example_selection)
      = (None, example_db, example_selection)"
  by (simp add: handleAdvanceStatus_def example_card_def example_trip_def Trip.extend_def)


section \<open>The commission across the writes of the application\<close>

lemma update_keeps_derived:
  assumes "set_platform_commission p = None \<or> set_agreed_fare p \<noteq> None"
    and "\<forall>t \<in> set (trips db). commission_derived t"
  shows "\<forall>t \<in> set (trips (update_trips p sel db)). commission_derived t"
  using assms row_written_keeps_derived by (auto simp: trips_update_trips)

lemma insert_keeps_derived:
  assumes "\<forall>t \<in> set (trips db). commission_derived t"
  shows "\<forall>t \<in> set (trips (insert_trip row db)). commission_derived t"
  using assms
  by (auto simp: insert_trip_def commission_derived_def calculate_trip_commission_fields)

lemma handleConfirmAssignment_keeps_derived:
  assumes "\<forall>t \<in> set (trips db). commission_derived t"
  shows "\<forall>t \<in> set (trips (fst (snd (handleConfirmAssignment ar fault now drv fare (db, board))))).
           commission_derived t"
proof (cases "selectedTrip board")
  case None
  with assms show ?thesis by (simp add: handleConfirmAssignment_def)
next
  case (Some sel)
  show ?thesis
  proof (cases fault)
    case None
    have "\<forall>t \<in> set (trips (update_trips
             (no_patch\<lparr>set_driver_id := Some (Some (d_id drv)),
                       set_agreed_fare := Some (Some fare), set_status := Some Confirmed\<rparr>)
             (\<lambda>t. t_id t = t_id sel) db)). commission_derived t"
      using assms by (intro update_keeps_derived) simp_all
    with Some None show ?thesis by (simp add: handleConfirmAssignment_def)
  next
    case (Some msg)
    with \<open>selectedTrip board = Some sel\<close> assms show ?thesis
      by (simp add: handleConfirmAssignment_def)
  qed
qed

lemma handleConfirm_store:
  "fst (snd (handleConfirm ar fault now modal (db, board))) = db
   \<or> (\<exists>drv fare. fst (snd (handleConfirm ar fault now modal (db, board)))
         = fst (snd (handleConfirmAssignment ar fault now drv fare (db, board))))"
proof (cases "selectedDriver modal")
  case None
  then show ?thesis by (simp add: handleConfirm_def)
next
  case (Some drv)
  show ?thesis
  proof (cases "parsedFare modal")
    case NaN
    with Some show ?thesis by (simp add: handleConfirm_def)
  next
    case (Num fare)
    show ?thesis
    proof (cases "canConfirm modal")
      case False
      with Some show ?thesis by (simp add: handleConfirm_def)
    next
      case True
      with Some Num have "fst (snd (handleConfirm ar fault now modal (db, board)))
          = fst (snd (handleConfirmAssignment ar fault now drv fare (db, board)))"
        by (simp add: handleConfirm_def split: prod.splits option.splits error.splits)
      then show ?thesis by blast
    qed
  qed
qed

lemma handleConfirm_keeps_derived:
  assumes "\<forall>t \<in> set (trips db). commission_derived t"
  shows "\<forall>t \<in> set (trips (fst (snd (handleConfirm ar fault now modal (db, board))))).
           commission_derived t"
  using handleConfirm_store [of ar fault now modal db board] assms
    handleConfirmAssignment_keeps_derived [OF assms, of ar fault now _ _ board]
  by metis

lemma handleAdvanceStatus_keeps_derived:
  assumes "\<forall>t \<in> set (trips db). commission_derived t"
  shows "\<forall>t \<in> set (trips (fst (snd (handleAdvanceStatus fault now trip (db, board))))).
           commission_derived t"
proof (cases "ADVANCE_CONFIG (status trip)")
  case None
  with assms show ?thesis by (simp add: handleAdvanceStatus_def)
next
  case (Some cfg)
  show ?thesis
  proof (cases fault)
    case None
    have "\<forall>t \<in> set (trips (update_trips (no_patch\<lparr>set_status := Some (cfg_next cfg)\<rparr>)
             (\<lambda>t. t_id t = t_id trip) db)). commission_derived t"
      using assms by (intro update_keeps_derived) (simp_all add: no_patch_def)
    with Some None show ?thesis by (simp add: handleAdvanceStatus_def)
  next
    case (Some msg)
    with \<open>ADVANCE_CONFIG (status trip) = Some cfg\<close> assms show ?thesis
      by (simp add: handleAdvanceStatus_def)
  qed
qed

lemma handleSettle_keeps_derived:
  assumes "\<forall>t \<in> set (trips db). commission_derived t"
  shows "\<forall>t \<in> set (trips (fst (snd (handleSettle fault driverId tripIds (db, page))))).
           commission_derived t"
proof (cases fault)
  case None
  have "\<forall>t \<in> set (trips (update_trips (no_patch\<lparr>set_commission_settled := Some True\<rparr>)
           (\<lambda>t. t_id t \<in> set tripIds) db)). commission_derived t"
    using assms by (intro update_keeps_derived) (simp_all add: no_patch_def)
  with None show ?thesis by (simp add: handleSettle_def)
next
  case (Some msg)
  with assms show ?thesis by (simp add: handleSettle_def)
qed

lemma insert_new_trip_keeps_derived:
  assumes "\<forall>t \<in> set (trips db). commission_derived t"
  shows "\<forall>t \<in> set (trips (fst (snd (insert_new_trip env m cust (db, board))))).
           commission_derived t"
  using assms insert_keeps_derived [OF assms]
  by (simp add: insert_new_trip_def Let_def split: option.splits)

lemma handleSubmit_keeps_derived:
  assumes "\<forall>t \<in> set (trips db). commission_derived t"
  shows "\<forall>t \<in> set (trips (fst (snd (handleSubmit env m (db, board))))). commission_derived t"
proof -
  have new: "\<forall>t \<in> set (trips (fst (snd (insert_new_trip env m cust
                 (db\<lparr>customers := cs\<rparr>, board))))). commission_derived t" for cust cs
    using assms by (intro insert_new_trip_keeps_derived) simp
  show ?thesis
    using assms new insert_new_trip_keeps_derived [OF assms]
    by (simp add: handleSubmit_def Let_def split: option.splits list.splits)
qed

text \<open>
  Claim C2, amended. The commission of a null fare is null, and of a fare \<open>f\<close> it is
  \<open>f * 0.12\<close>. Every inserted row leaves the BEFORE INSERT trigger with
  \<open>platform_commission\<close> derived from its \<open>agreed_fare\<close>, whatever the candidate row held.
  Every UPDATE that names \<open>agreed_fare\<close> leaves each selected row with the new fare and
  the commission derived from it. The store itself lets an UPDATE that names
  \<open>platform_commission\<close> alone through, but no handler of the application writes one:
  creating a trip, assigning a driver, advancing the status and settling each keep
  every trip's commission derived from its fare, whatever the store answers.
\<close>

theorem commission_follows_agreed_fare:
  "deriveCommission None = None
   \<and> deriveCommission (Some f) = Some (f * (12 / 100))
   \<and> trips (insert_trip row db) = trips db @ [calculate_trip_commission row]
   \<and> platform_commission (calculate_trip_commission row) = deriveCommission (agreed_fare row)
   \<and> agreed_fare (calculate_trip_commission row) = agreed_fare row
   \<and> (set_agreed_fare p = Some fare \<longrightarrow>
        (\<forall>i < length (trips db). sel (trips db ! i) \<longrightarrow>
           agreed_fare (trips (update_trips p sel db) ! i) = fare
           \<and> platform_commission (trips (update_trips p sel db) ! i) = deriveCommission fare))
   \<and> ((\<forall>t \<in> set (trips db). commission_derived t) \<longrightarrow>
        (\<forall>t \<in> set (trips (fst (snd (handleSubmit env m (db, board))))). commission_derived t)
        \<and> (\<forall>t \<in> set (trips (fst (snd (handleConfirm ar fault now modal (db, board))))).
              commission_derived t)
        \<and> (\<forall>t \<in> set (trips (fst (snd
                (handleConfirmAssignment ar fault now drv agreedFare (db, board))))).
              commission_derived t)
        \<and> (\<forall>t \<in> set (trips (fst (snd (handleAdvanceStatus fault now trip (db, board))))).
              commission_derived t)
        \<and> (\<forall>t \<in> set (trips (fst (snd (handleSettle fault driverId tripIds (db, page))))).
              commission_derived t))"
proof (intro conjI impI)
  show "deriveCommission None = None" by (simp add: deriveCommission_def)
  show "deriveCommission (Some f) = Some (f * (12 / 100))" by (simp add: deriveCommission_def)
  show "trips (insert_trip row db) = trips db @ [calculate_trip_commission row]"
    by (simp add: insert_trip_def)
  show "platform_commission (calculate_trip_commission row) = deriveCommission (agreed_fare row)"
    by (rule calculate_trip_commission_fields)
  show "agreed_fare (calculate_trip_commission row) = agreed_fare row"
    by (rule calculate_trip_commission_fields)
  show "\<forall>i < length (trips db). sel (trips db ! i) \<longrightarrow>
           agreed_fare (trips (update_trips p sel db) ! i) = fare
           \<and> platform_commission (trips (update_trips p sel db) ! i) = deriveCommission fare"
    if "set_agreed_fare p = Some fare"
    using that
    by (simp add: trips_update_trips row_written_def calculate_trip_commission_fields
          assign_columns_simps)
next
  assume inv: "\<forall>t \<in> set (trips db). commission_derived t"
  show "\<forall>t \<in> set (trips (fst (snd (handleSubmit env m (db, board))))). commission_derived t"
    by (rule handleSubmit_keeps_derived [OF inv])
  show "\<forall>t \<in> set (trips (fst (snd (handleConfirm ar fault now modal (db, board))))).
          commission_derived t"
    by (rule handleConfirm_keeps_derived [OF inv])
  show "\<forall>t \<in> set (trips (fst (snd
            (handleConfirmAssignment ar fault now drv agreedFare (db, board))))).
          commission_derived t"
    by (rule handleConfirmAssignment_keeps_derived [OF inv])
  show "\<forall>t \<in> set (trips (fst (snd (handleAdvanceStatus fault now trip (db, board))))).
          commission_derived t"
    by (rule handleAdvanceStatus_keeps_derived [OF inv])
  show "\<forall>t \<in> set (trips (fst (snd (handleSettle fault driverId tripIds (db, page))))).
          commission_derived t"
    by (rule handleSettle_keeps_derived [OF inv])
qed

text \<open>
  The update of the fare of \<open>trip4\<close> to 8000 in the example database: the commission
  becomes 960. The assignment of driver B to \<open>trip4\<close> by the form keeps every commission
  of the example database derived.
\<close>

theorem commission_follows_agreed_fare_witness:
  "set_agreed_fare (no_patch\<lparr>set_agreed_fare := Some (Some 8000)\<rparr>) = Some (Some 8000)
   \<and> (3::nat) < length (trips example_db)
   \<and> t_id (trips example_db ! 3) = ''trip4''
   \<and> agreed_fare (trips (update_trips (no_patch\<lparr>set_agreed_fare := Some (Some 8000)\<rparr>)
          (\<lambda>t. t_id t = ''trip4'') example_db) ! 3) = Some 8000
   \<and> platform_commission (trips (update_trips (no_patch\<lparr>set_agreed_fare := Some (Some 8000)\<rparr>)
          (\<lambda>t. t_id t = ''trip4'') example_db) ! 3) = Some 960
   \<and> list_all commission_derived (trips example_db)
   \<and> list_all commission_derived
         (trips (fst (snd (handleConfirm example_arith None 30 example_modal
                             (example_db, example_selection)))))"
proof -
  let ?p = "no_patch\<lparr>set_agreed_fare := Some (Some 8000)\<rparr>"
  have p: "set_agreed_fare ?p = Some (Some 8000)" by (simp add: no_patch_def)
  have len: "(3::nat) < length (trips example_db)" by (simp add: example_db_def)
  have sel: "t_id (trips example_db ! 3) = ''trip4''"
    by (simp add: example_db_def example_trip_def)
  have inv: "\<forall>t \<in> set (trips example_db). commission_derived t"
    by (simp add: example_db_def example_trip_def commission_derived_def)
  have d: "deriveCommission (Some 8000) = Some 960" by (simp add: deriveCommission_def)
  note all = commission_follows_agreed_fare
    [where db = example_db and p = ?p and fare = "Some 8000"
       and sel = "\<lambda>t. t_id t = ''trip4''" and ar = example_arith and fault = None
       and now = 30 and modal = example_modal and board = example_selection]
  from all p len sel d
  have a: "agreed_fare (trips (update_trips ?p (\<lambda>t. t_id t = ''trip4'') example_db) ! 3)
             = Some 8000
           \<and> platform_commission (trips (update_trips ?p (\<lambda>t. t_id t = ''trip4'') example_db) ! 3)
             = Some 960"
    by simp
  from all inv
  have b: "\<forall>t \<in> set (trips (fst (snd (handleConfirm example_arith None 30 example_modal
                             (example_db, example_selection))))). commission_derived t"
    by blast
  from p len sel inv a b show ?thesis by (simp add: list_all_iff)
qed

text \<open>
  The claim as it was stated has the commission never set independently of the fare. An
  UPDATE that names \<open>platform_commission\<close> alone does not fire the trigger: \<open>trip1\<close> keeps
  its fare of 10000, whose commission is 1200, and gets the commission 5.
\<close>

theorem commission_set_without_fare:
  "agreed_fare (trips (update_trips (no_patch\<lparr>set_platform_commission := Some (Some 5)\<rparr>)
      (\<lambda>t. t_id t = ''trip1'') example_db) ! 0) = Some 10000
   \<and> platform_commission (trips (update_trips
      (no_patch\<lparr>set_platform_commission := Some (Some 5)\<rparr>)
      (\<lambda>t. t_id t = ''trip1'') example_db) ! 0) = Some 5
   \<and> deriveCommission (Some 10000) = Some 1200"
  by (simp add: trips_update_trips row_written_def assign_columns_def no_patch_def
        example_db_def example_trip_def deriveCommission_def)

end
